theory Spec2Isabelle
  imports Main "HOL-Library.AList"
begin

section \<open>Conventions of the embedding\<close>

text \<open>
  The development embeds the request algebra of the sliding-sync server (package sync3:
  Request.ApplyDelta and RequestList.CalculateMoveIndexes) and the connection state
  machine (ConnState) as HOL functions.

  \<^item> Go's \<open>int\<close> and \<open>int64\<close> are modelled as \<open>int\<close>. The embedded functions only copy and
    compare indexes and positions (there is no arithmetic on them), so no value ever
    leaves the 64-bit range it came in with, and the conversions \<open>int64(i)\<close>, \<open>int(i)\<close>
    are the identity on the 64-bit platforms the server targets.
  \<^item> A slice or pointer whose nil-ness the code tests is an \<open>option\<close>: \<open>None\<close> is nil,
    \<open>Some []\<close> is the empty, non-nil slice that \<open>encoding/json\<close> decodes \<open>[]\<close> into.
  \<^item> A Go map is an association list read with \<open>map_of\<close>, written with \<open>AList.update\<close>
    and \<open>AList.delete\<close>. The order of the list stands for the iteration order of the
    map, which Go leaves unspecified; a \<open>range\<close> loop visits \<open>AList.clearjunk m\<close>, that
    is every key once with the value \<open>map_of\<close> reads.
  \<^item> A panic is the \<open>Inl\<close> branch of a sum type.
  \<^item> Log lines are left out, except in OnNewEvent, where a log line is all that one
    branch does.
\<close>

type_synonym json = string

datatype panic = NilDereference | IndexOutOfRange

section \<open>SliceRanges\<close>

type_synonym Range = "int \<times> int"

type_synonym SliceRanges = "Range list"

text \<open>
  Modelled from the spec: the type SliceRanges and its methods are declared in a file
  that is not among the sources. Section 4.1: \<open>Inside(i)\<close> is true iff \<open>lo \<le> i \<le> hi\<close> for
  some range, and returns the covering range. The first covering range of the list is
  returned; \<open>None\<close> stands for the pair (zero range, false).
\<close>

definition Inside :: "SliceRanges \<Rightarrow> int \<Rightarrow> Range option" where
  "Inside rs i = find (\<lambda>r. fst r \<le> i \<and> i \<le> snd r) rs"

text \<open>The boundaries of a range set: the \<open>lo\<close> and \<open>hi\<close> of each of its ranges.\<close>

definition boundaries :: "SliceRanges \<Rightarrow> int list" where
  "boundaries rs = concat (map (\<lambda>r. [fst r, snd r]) rs)"

text \<open>
  Modelled from the spec: SliceRanges.ClosestInDirection is not among the sources.
  Section 4.1: when \<open>towardsZero\<close> is true it returns the largest boundary \<open>\<le> i\<close>,
  otherwise the smallest boundary \<open>\<ge> i\<close>. Where no such boundary exists the result is
  \<open>-1\<close>, as the section states for the two clamps.
\<close>

definition ClosestInDirection :: "SliceRanges \<Rightarrow> int \<Rightarrow> bool \<Rightarrow> int" where
  "ClosestInDirection rs i towardsZero =
     (case filter (\<lambda>b. if towardsZero then b \<le> i else i \<le> b) (boundaries rs) of
        [] \<Rightarrow> - 1
      | b # bs \<Rightarrow> fold (if towardsZero then max else min) bs b)"

text \<open>
  Modelled from the spec: SliceRanges.LowerClamp is not among the sources. Section 4.1:
  it snaps \<open>i\<close> to the nearest boundary of a tracked range in the stated direction, here
  towards zero, and returns \<open>-1\<close> if there is no such boundary.
\<close>

definition LowerClamp :: "SliceRanges \<Rightarrow> int \<Rightarrow> int" where
  "LowerClamp rs i = ClosestInDirection rs i True"

text \<open>
  The invariant of the data model (section 3): the ranges of one list are pairwise
  non-overlapping.
\<close>

fun non_overlapping :: "SliceRanges \<Rightarrow> bool" where
  "non_overlapping [] = True"
| "non_overlapping (r # rs) =
     (list_all (\<lambda>s. snd r < fst s \<or> snd s < fst r) rs \<and> non_overlapping rs)"

section \<open>Requests (request.go)\<close>

definition SortByRecency :: string where
  "SortByRecency = ''by_recency''"

record RoomSubscription =
  RequiredState :: "(string \<times> string) list option"
  TimelineLimit :: int

record RequestFilters =
  Spaces :: "string list"
  IsDM :: "bool option"
  IsEncrypted :: "bool option"
  IsInvite :: "bool option"
  IsTombstoned :: "bool option"
  RoomTypes :: "string option list"
  NotRoomTypes :: "string option list"
  RoomNameFilter :: string
  Tags :: "string list"

text \<open>RequestList embeds RoomSubscription, as the Go struct does.\<close>

record RequestList = RoomSubscription +
  Ranges :: "SliceRanges option"
  Sort :: "string list option"
  Filters :: "RequestFilters option"
  SlowGetAllRooms :: "bool option"

text \<open>
  The type of \<open>Extensions\<close> (extensions.Request) and its own ApplyDelta belong to a
  package that is not among the sources: the type is a parameter of the record.
\<close>

record 'e Request =
  TxnID :: string
  Lists :: "RequestList list"
  RoomSubscriptions :: "(string \<times> RoomSubscription) list"
  UnsubscribeRooms :: "string list"
  Extensions :: 'e
  pos :: int
  timeoutMSecs :: int

record RequestListDelta =
  Prev :: "RequestList option"
  Curr :: "RequestList option"

text \<open>
  RequestDelta; its field \<open>Lists\<close> is named \<open>DeltaLists\<close> here, apart from the field of
  Request.
\<close>

record RequestDelta =
  Subs :: "string list"
  Unsubs :: "string list"
  DeltaLists :: "RequestListDelta list"

text \<open>\<open>len\<close> of a slice that may be nil.\<close>

definition slice_len :: "'a list option \<Rightarrow> nat" where
  "slice_len xs = (case xs of None \<Rightarrow> 0 | Some ys \<Rightarrow> length ys)"

text \<open>\<open>range\<close> over a slice that may be nil.\<close>

definition slice_elems :: "'a list option \<Rightarrow> 'a list" where
  "slice_elems xs = (case xs of None \<Rightarrow> [] | Some ys \<Rightarrow> ys)"

subsection \<open>RequestList.CalculateMoveIndexes\<close>

definition jumpedOverRanges :: "RequestList \<Rightarrow> int \<Rightarrow> int \<Rightarrow> Range list" where
  "jumpedOverRanges rl fromIndex toIndex =
     (let hi = (if fromIndex < toIndex then toIndex else fromIndex);
          lo = (if fromIndex < toIndex then fromIndex else toIndex)
      in filter (\<lambda>r. fst r > lo \<and> fst r < hi \<and> snd r > lo \<and> snd r < hi)
           (slice_elems (Ranges rl)))"

text \<open>
  The body of the two loops over the jumped-over ranges: \<open>(hi, lo)\<close> when heading
  towards zero, \<open>(lo, hi)\<close> otherwise.
\<close>

definition jumpedFromTo :: "int \<Rightarrow> int \<Rightarrow> Range \<Rightarrow> int \<times> int" where
  "jumpedFromTo fromIndex toIndex jumpedOverRange =
     (if fromIndex > toIndex then (snd jumpedOverRange, fst jumpedOverRange)
      else (fst jumpedOverRange, snd jumpedOverRange))"

text \<open>The result is the pair \<open>(fromTos, ok)\<close>; the nil slice is \<open>[]\<close>.\<close>

definition CalculateMoveIndexes :: "RequestList \<Rightarrow> int \<Rightarrow> int \<Rightarrow> (int \<times> int) list \<times> bool" where
  "CalculateMoveIndexes rl fromIndex toIndex =
     (let rs = slice_elems (Ranges rl);
          fromRng = Inside rs fromIndex;
          toRng = Inside rs toIndex;
          isFromInsideRange = (fromRng \<noteq> None);
          isToInsideRange = (toRng \<noteq> None)
      in if isFromInsideRange \<and> isToInsideRange \<and> fromRng = toRng
         then ([(fromIndex, toIndex)], True)
         else if \<not> isFromInsideRange \<and> \<not> isToInsideRange
         then (let jumped = jumpedOverRanges rl fromIndex toIndex
               in if length jumped = 0 then ([], False)
                  else (map (jumpedFromTo fromIndex toIndex) jumped, True))
         else ((if isFromInsideRange
                then [(fromIndex, ClosestInDirection rs fromIndex (toIndex < fromIndex))]
                else [])
               @ (if isToInsideRange
                  then [(ClosestInDirection rs toIndex (fromIndex < toIndex), toIndex)]
                  else [])
               @ map (jumpedFromTo fromIndex toIndex) (jumpedOverRanges rl fromIndex toIndex),
               True))"

subsection \<open>Request.ApplyDelta\<close>

text \<open>
  The body of the loop over \<open>nextReq.Lists\<close>, for one index: \<open>existingList\<close> is the
  previous list at that index, if there is one. The first component is the entry written
  to \<open>lists[i]\<close>; the second is \<open>nextReq.Lists[i]\<close> as the loop leaves it, because the
  default sort order is assigned to the incoming request in place.
\<close>

definition applyListDelta :: "RequestList option \<Rightarrow> RequestList \<Rightarrow> RequestList \<times> RequestList" where
  "applyListDelta existingList nextList0 =
     (let nextList =
            (if slice_len (Sort nextList0) = 0 \<and> existingList = None
             then nextList0\<lparr>Sort := Some [SortByRecency]\<rparr> else nextList0)
      in case existingList of
           None \<Rightarrow> (nextList, nextList)
         | Some existing \<Rightarrow>
             (let rooms = (case Ranges nextList of None \<Rightarrow> Ranges existing | Some x \<Rightarrow> Some x);
                  sort = (case Sort nextList of None \<Rightarrow> Sort existing | Some x \<Rightarrow> Some x);
                  reqState = (case RequiredState nextList of
                                None \<Rightarrow> RequiredState existing | Some x \<Rightarrow> Some x);
                  slowGetAllRooms = (case SlowGetAllRooms nextList of
                                       None \<Rightarrow> SlowGetAllRooms existing | Some x \<Rightarrow> Some x);
                  timelineLimit = (if TimelineLimit nextList = 0
                                   then TimelineLimit existing else TimelineLimit nextList);
                  filters = (case Filters nextList of None \<Rightarrow> Filters existing | Some x \<Rightarrow> Some x)
              in (\<lparr>RequiredState = reqState, TimelineLimit = timelineLimit,
                   Ranges = rooms, Sort = sort, Filters = filters,
                   SlowGetAllRooms = slowGetAllRooms\<rparr>, nextList)))"

text \<open>The element at an index of a slice, as a pointer that is nil out of range.\<close>

definition list_at :: "'a list \<Rightarrow> nat \<Rightarrow> 'a option" where
  "list_at xs i = (if i < length xs then Some (xs ! i) else None)"

text \<open>
  Copying a map into another: \<open>for roomID, val := range src { dst[roomID] = val }\<close>.
\<close>

definition copy_into :: "('k \<times> 'v) list \<Rightarrow> ('k \<times> 'v) list \<Rightarrow> ('k \<times> 'v) list" where
  "copy_into src dst = fold (\<lambda>kv m. AList.update (fst kv) (snd kv) m) (AList.clearjunk src) dst"

text \<open>
  The two loops over unsubscribed rooms. \<open>reported\<close> is the extra test of the second
  loop (the room is not subscribed to by the same request); the first loop has none.
\<close>

definition applyUnsubs ::
  "(string \<Rightarrow> bool) \<Rightarrow> string list \<Rightarrow> (string \<times> RoomSubscription) list \<times> string list
     \<Rightarrow> (string \<times> RoomSubscription) list \<times> string list" where
  "applyUnsubs reported roomIDs st =
     fold (\<lambda>roomID (resultSubs, unsubs).
             (AList.delete roomID resultSubs,
              if map_of resultSubs roomID \<noteq> None \<and> reported roomID
              then unsubs @ [roomID] else unsubs))
          roomIDs st"

text \<open>
  The previous request \<open>r\<close> is \<open>None\<close> when it is nil. ApplyDelta then goes on with
  \<open>r = &Request{}\<close>: no lists, no subscriptions, no unsubscribes.
\<close>

definition prevLists :: "'e Request option \<Rightarrow> RequestList list" where
  "prevLists r = (case r of None \<Rightarrow> [] | Some p \<Rightarrow> Lists p)"

definition prevSubscriptions :: "'e Request option \<Rightarrow> (string \<times> RoomSubscription) list" where
  "prevSubscriptions r = (case r of None \<Rightarrow> [] | Some p \<Rightarrow> RoomSubscriptions p)"

definition prevUnsubscribes :: "'e Request option \<Rightarrow> string list" where
  "prevUnsubscribes r = (case r of None \<Rightarrow> [] | Some p \<Rightarrow> UnsubscribeRooms p)"

text \<open>
  ApplyDelta. \<open>extApply\<close> is \<open>Extensions.ApplyDelta\<close>. The result is
  \<open>(result, delta, nextReq')\<close> where \<open>nextReq'\<close> is the incoming request as the call
  leaves it: the loop over the lists assigns the default sort order to
  \<open>nextReq.Lists[i].Sort\<close>, which the caller's request shares.
\<close>

definition ApplyDelta ::
  "('e \<Rightarrow> 'e \<Rightarrow> 'e) \<Rightarrow> 'e Request option \<Rightarrow> 'e Request
     \<Rightarrow> 'e Request \<times> RequestDelta \<times> 'e Request" where
  "ApplyDelta extApply r nextReq =
     (let ext = (case r of None \<Rightarrow> Extensions nextReq
                 | Some p \<Rightarrow> extApply (Extensions p) (Extensions nextReq));
          merged = map (\<lambda>i. applyListDelta (list_at (prevLists r) i) (Lists nextReq ! i))
                     [0 ..< length (Lists nextReq)];
          lists = map fst merged;
          maxLen = (if length (prevLists r) > length lists
                    then length (prevLists r) else length lists);
          deltaLists = map (\<lambda>i. \<lparr>Prev = list_at (prevLists r) i, Curr = list_at lists i\<rparr>)
                         [0 ..< maxLen];
          st1 = applyUnsubs (\<lambda>roomID. True) (prevUnsubscribes r)
                  (copy_into (prevSubscriptions r) [], []);
          st2 = applyUnsubs (\<lambda>roomID. map_of (RoomSubscriptions nextReq) roomID = None)
                  (UnsubscribeRooms nextReq)
                  (copy_into (RoomSubscriptions nextReq) (fst st1), snd st1);
          resultSubs = fst st2;
          subs = filter (\<lambda>roomID. map_of (prevSubscriptions r) roomID = None)
                   (map fst (AList.clearjunk resultSubs))
      in (\<lparr>TxnID = [], Lists = lists, RoomSubscriptions = resultSubs,
            UnsubscribeRooms = [], Extensions = ext, pos = 0, timeoutMSecs = 0\<rparr>,
          \<lparr>Subs = subs, Unsubs = snd st2, DeltaLists = deltaLists\<rparr>,
          nextReq\<lparr>Lists := map snd merged\<rparr>))"

subsection \<open>The claimed merge rules, in the words of the specification\<close>

text \<open>
  Section 4.3 of the specification, the table of per-list rules, for a position that has
  a previous list: ranges, required-state, filters and slow-get-all-rooms are the
  incoming ones if set, else the previous ones; sort is the incoming one if non-empty,
  else the previous one; timeline-limit is the incoming one if \<open>> 0\<close>, else the previous
  one. This definition follows the specification, not the source.
\<close>

definition spec_merge_list :: "RequestList \<Rightarrow> RequestList \<Rightarrow> RequestList" where
  "spec_merge_list prev inc =
     \<lparr>RequiredState = (if RequiredState inc \<noteq> None then RequiredState inc else RequiredState prev),
      TimelineLimit = (if TimelineLimit inc > 0 then TimelineLimit inc else TimelineLimit prev),
      Ranges = (if Ranges inc \<noteq> None then Ranges inc else Ranges prev),
      Sort = (if slice_len (Sort inc) \<noteq> 0 then Sort inc else Sort prev),
      Filters = (if Filters inc \<noteq> None then Filters inc else Filters prev),
      SlowGetAllRooms = (if SlowGetAllRooms inc \<noteq> None then SlowGetAllRooms inc
                         else SlowGetAllRooms prev)\<rparr>"

text \<open>
  Section 4.3, delta reporting: \<open>delta.unsubs\<close> is the identifiers dropped from the
  previous subscriptions (in the previous subscriptions, not in the result), except
  those that the incoming request both subscribes to and unsubscribes from. This
  definition follows the specification, not the source.
\<close>

definition spec_unsubs ::
  "(string \<times> RoomSubscription) list \<Rightarrow> (string \<times> RoomSubscription) list \<Rightarrow> string list
     \<Rightarrow> (string \<times> RoomSubscription) list \<Rightarrow> string set" where
  "spec_unsubs prevSubs nextSubs nextUnsubs resultSubs =
     {k \<in> fst ` set prevSubs. map_of resultSubs k = None
        \<and> \<not> (map_of nextSubs k \<noteq> None \<and> k \<in> set nextUnsubs)}"

text \<open>
  The list that ApplyDelta stores for a position without a previous list: the incoming
  list, with the default sort order if it has none.
\<close>

definition defaultSort :: "RequestList \<Rightarrow> RequestList" where
  "defaultSort l = l\<lparr>Sort := (if slice_len (Sort l) = 0 then Some [SortByRecency] else Sort l)\<rparr>"

section \<open>Connection state (connstate.go)\<close>

text \<open>
  ConnState is written against an earlier shape of the request than request.go declares:
  it reads \<open>muxedReq.Rooms\<close>, \<open>muxedReq.Sort\<close>, \<open>muxedReq.TimelineLimit\<close> and
  \<open>muxedReq.RoomSubscriptions\<close>, and an ApplyDelta that returns the combined request
  with the new subscriptions and unsubscriptions. The declarations of that request, of
  the response types, of EventData, of UserRoomData and of internal.RoomMetadata are not
  among the sources; the records below hold the fields that ConnState reads and writes.
\<close>

definition MaxPendingEventUpdates :: nat where
  "MaxPendingEventUpdates = 200"

type_synonym error = string

record RoomMetadata =
  RoomID :: string
  LastMessageTimestamp :: nat

text \<open>RoomConnMetadata embeds internal.RoomMetadata.\<close>

record RoomConnMetadata = RoomMetadata +
  CanonicalisedName :: string
  HighlightCount :: int
  NotificationCount :: int

record UserRoomData =
  urd_NotificationCount :: int
  urd_HighlightCount :: int
  urd_Timeline :: "json list"

record EventData =
  event :: "json option"
  roomID :: string
  latestPos :: int
  timestamp :: nat
  userRoomData :: "UserRoomData option"

text \<open>The response payload of one room (type Room).\<close>

record Room =
  Room_RoomID :: string
  Room_Name :: string
  Room_NotificationCount :: int
  Room_HighlightCount :: int
  Room_Timeline :: "json list"
  Room_RequiredState :: "json list"

text \<open>
  The two kinds of response operation. \<open>ResponseOpSingle operation index room\<close> has the
  fields Operation, Index and Room of the Go struct (the latter two are pointers);
  \<open>ResponseOpRange operation range rooms\<close> has Operation, Range and Rooms.
\<close>

datatype ResponseOp =
    ResponseOpSingle string "int option" "Room option"
  | ResponseOpRange string "int list" "Room list"

record Response =
  Resp_RoomSubscriptions :: "(string \<times> Room) list"
  Count :: int
  Ops :: "ResponseOp list"

text \<open>The request as ConnState reads it.\<close>

record ConnRequest =
  req_Rooms :: "SliceRanges option"
  req_Sort :: "string list option"
  req_TimelineLimit :: int
  req_RoomSubscriptions :: "(string \<times> RoomSubscription) list"

text \<open>
  The collaborators of ConnState, none of which is among the sources: the global cache
  (\<open>LoadJoinedRooms\<close>, \<open>LoadRoom\<close>, \<open>LoadRoomState\<close>), the user cache
  (\<open>lazilyLoadRoomDatas\<close>, \<open>loadRoomData\<close>), package internal (\<open>RemoveHero\<close>, with the
  user identifier first, and \<open>CalculateRoomName\<close>), \<open>SortableRooms.Sort\<close>,
  \<open>SliceRanges.Delta\<close>, the request's \<open>GetRequiredState\<close> and three-valued
  \<open>ApplyDelta\<close>, and \<open>strings.ToLower\<close> and \<open>strings.Trim\<close>. They are taken as
  parameters; \<open>'q\<close> is the type internal.RequiredStateMap.
\<close>

record 'q Collaborators =
  LoadJoinedRooms :: "string \<Rightarrow> error + (int \<times> RoomMetadata list)"
  LoadRoom :: "string \<Rightarrow> RoomMetadata"
  LoadRoomState :: "string \<Rightarrow> int \<Rightarrow> 'q \<Rightarrow> json list"
  lazilyLoadRoomDatas :: "int \<Rightarrow> string list \<Rightarrow> int \<Rightarrow> (string \<times> UserRoomData) list"
  loadRoomData :: "string \<Rightarrow> UserRoomData"
  RemoveHero :: "string \<Rightarrow> RoomMetadata \<Rightarrow> RoomMetadata"
  CalculateRoomName :: "RoomMetadata \<Rightarrow> int \<Rightarrow> string"
  SortRooms :: "string list option \<Rightarrow> RoomConnMetadata list \<Rightarrow> RoomConnMetadata list"
  RangesDelta :: "SliceRanges \<Rightarrow> SliceRanges option
                    \<Rightarrow> SliceRanges option \<times> SliceRanges option \<times> SliceRanges option"
  GetRequiredState :: "ConnRequest \<Rightarrow> string \<Rightarrow> 'q"
  ApplyDelta3 :: "ConnRequest \<Rightarrow> ConnRequest \<Rightarrow> ConnRequest \<times> string list \<times> string list"
  ToLower :: "string \<Rightarrow> string"
  Trim :: "string \<Rightarrow> string \<Rightarrow> string"

text \<open>
  ConnState. \<open>updateEvents\<close> is the content of the buffered channel, oldest event first;
  the two caches are the collaborators above.
\<close>

record ConnState =
  muxedReq :: "ConnRequest option"
  userID :: string
  sortedJoinedRooms :: "RoomConnMetadata list"
  sortedJoinedRoomsPositions :: "(string \<times> int) list"
  roomSubscriptions :: "(string \<times> RoomSubscription) list"
  loadPosition :: int
  updateEvents :: "EventData list"
  userCacheID :: int

text \<open>What a call does to the world outside ConnState: a log line, or a call of the user cache.\<close>

datatype effect = LogWarn string | Unsubscribe int

text \<open>
  NewConnState; \<open>subscriptionID\<close> is what \<open>userCache.Subsribe\<close> returns. The channel is
  made with capacity MaxPendingEventUpdates and is empty.
\<close>

definition NewConnState :: "string \<Rightarrow> int \<Rightarrow> ConnState" where
  "NewConnState user subscriptionID =
     \<lparr>muxedReq = None, userID = user, sortedJoinedRooms = [],
      sortedJoinedRoomsPositions = [], roomSubscriptions = [], loadPosition = 0,
      updateEvents = [], userCacheID = subscriptionID\<rparr>"

text \<open>
  Modelled from the spec: SliceRanges.SliceInto is not among the sources. Section 4.1: it
  yields the subsequences of \<open>seq\<close> whose absolute positions fall inside each range,
  preserving range order.
\<close>

definition SliceInto :: "SliceRanges \<Rightarrow> 'a list \<Rightarrow> 'a list list" where
  "SliceInto rs seq =
     map (\<lambda>r. map (\<lambda>i. seq ! i)
                (filter (\<lambda>i. fst r \<le> int i \<and> int i \<le> snd r) [0 ..< length seq])) rs"

text \<open>ConnState.sort: sort the rooms, then record the position of each.\<close>

definition ConnState_sort :: "'q Collaborators \<Rightarrow> ConnState \<Rightarrow> string list option \<Rightarrow> ConnState" where
  "ConnState_sort c s sortBy =
     (let rooms = SortRooms c sortBy (sortedJoinedRooms s)
      in s\<lparr>sortedJoinedRooms := rooms,
           sortedJoinedRoomsPositions :=
             fold (\<lambda>i m. AList.update (RoomID (rooms ! i)) (int i) m) [0 ..< length rooms]
               (sortedJoinedRoomsPositions s)\<rparr>)"

text \<open>
  ConnState.load. The result is the returned error (\<open>None\<close> is nil) and the state the
  call leaves.
\<close>

definition load :: "'q Collaborators \<Rightarrow> ConnState \<Rightarrow> ConnRequest \<Rightarrow> error option \<times> ConnState" where
  "load c s req =
     (case LoadJoinedRooms c (userID s) of
        Inl err \<Rightarrow> (Some err, s)
      | Inr (initialLoadPosition, joinedRooms) \<Rightarrow>
          (let rooms = map (\<lambda>joined.
                 (let metadata = RemoveHero c (userID s) joined
                  in \<lparr>RoomID = RoomID metadata,
                      LastMessageTimestamp = LastMessageTimestamp metadata,
                      CanonicalisedName =
                        ToLower c (Trim c (CalculateRoomName c metadata 5) ''#!()):_''),
                      HighlightCount = 0, NotificationCount = 0\<rparr>)) joinedRooms
           in (None, ConnState_sort c
                       (s\<lparr>loadPosition := initialLoadPosition, sortedJoinedRooms := rooms\<rparr>)
                       (req_Sort req))))"

text \<open>\<open>&Room{RoomID: roomID}\<close>: every other field has its zero value.\<close>

definition roomStub :: "string \<Rightarrow> Room" where
  "roomStub rid =
     \<lparr>Room_RoomID = rid, Room_Name = [], Room_NotificationCount = 0,
      Room_HighlightCount = 0, Room_Timeline = [], Room_RequiredState = []\<rparr>"

definition getDeltaRoomData :: "'q Collaborators \<Rightarrow> EventData \<Rightarrow> Room" where
  "getDeltaRoomData c updateEvent =
     (let userRoomData = loadRoomData c (roomID updateEvent)
      in \<lparr>Room_RoomID = roomID updateEvent, Room_Name = [],
          Room_NotificationCount = urd_NotificationCount userRoomData,
          Room_HighlightCount = urd_HighlightCount userRoomData,
          Room_Timeline = (case event updateEvent of None \<Rightarrow> [] | Some e \<Rightarrow> [e]),
          Room_RequiredState = []\<rparr>)"

text \<open>The zero value that indexing a map of UserRoomData gives for a missing key.\<close>

definition zeroUserRoomData :: UserRoomData where
  "zeroUserRoomData = \<lparr>urd_NotificationCount = 0, urd_HighlightCount = 0, urd_Timeline = []\<rparr>"

text \<open>
  The rooms that getInitialRoomData builds for the muxed request \<open>m\<close>: one call of
  \<open>lazilyLoadRoomDatas\<close> for all the rooms, then one Room per identifier, in order.
\<close>

definition initialRooms :: "'q Collaborators \<Rightarrow> ConnState \<Rightarrow> ConnRequest \<Rightarrow> string list \<Rightarrow> Room list" where
  "initialRooms c s m roomIDs =
     (let roomIDToUserRoomData =
            lazilyLoadRoomDatas c (loadPosition s) roomIDs (req_TimelineLimit m)
      in map (\<lambda>rid.
            (let userRoomData = (case map_of roomIDToUserRoomData rid of
                                   None \<Rightarrow> zeroUserRoomData | Some u \<Rightarrow> u);
                 metadata = RemoveHero c (userID s) (LoadRoom c rid)
             in \<lparr>Room_RoomID = rid,
                 Room_Name = CalculateRoomName c metadata 5,
                 Room_NotificationCount = urd_NotificationCount userRoomData,
                 Room_HighlightCount = urd_HighlightCount userRoomData,
                 Room_Timeline = urd_Timeline userRoomData,
                 Room_RequiredState =
                   LoadRoomState c rid (loadPosition s) (GetRequiredState c m rid)\<rparr>))
            roomIDs)"

text \<open>
  getInitialRoomData. It reads \<open>s.muxedReq.TimelineLimit\<close> first, which panics when the
  connection has no muxed request yet.
\<close>

definition getInitialRoomData :: "'q Collaborators \<Rightarrow> ConnState \<Rightarrow> string list \<Rightarrow> panic + Room list" where
  "getInitialRoomData c s roomIDs =
     (case muxedReq s of
        None \<Rightarrow> Inl NilDereference
      | Some m \<Rightarrow> Inr (initialRooms c s m roomIDs))"

text \<open>The first element of a slice, \<open>xs[0]\<close>, which panics on an empty slice.\<close>

definition first_elem :: "'a list \<Rightarrow> panic + 'a" where
  "first_elem xs = (case xs of [] \<Rightarrow> Inl IndexOutOfRange | x # _ \<Rightarrow> Inr x)"

text \<open>Sequencing of calls that may panic.\<close>

definition and_then :: "panic + 'a \<Rightarrow> ('a \<Rightarrow> panic + 'b) \<Rightarrow> panic + 'b" where
  "and_then x f = (case x of Inl p \<Rightarrow> Inl p | Inr v \<Rightarrow> f v)"

subsection \<open>ConnState.moveRoom\<close>

definition moveRoom ::
  "'q Collaborators \<Rightarrow> ConnState \<Rightarrow> EventData \<Rightarrow> int \<Rightarrow> int \<Rightarrow> SliceRanges \<Rightarrow> bool
     \<Rightarrow> panic + ResponseOp list" where
  "moveRoom c s updateEvent fromIndex toIndex ranges onlySendRoomID =
     (if fromIndex = toIndex
      then (let room = (if \<not> onlySendRoomID then getDeltaRoomData c updateEvent
                        else roomStub (roomID updateEvent))
            in Inr [ResponseOpSingle ''UPDATE'' (Some fromIndex) (Some room)])
      else (let deleteIndex = (if Inside ranges fromIndex = None
                               then LowerClamp ranges fromIndex else fromIndex)
            in and_then
                 (if \<not> onlySendRoomID
                  then and_then (getInitialRoomData c s [roomID updateEvent]) first_elem
                  else Inr (roomStub (roomID updateEvent)))
                 (\<lambda>room. Inr [ResponseOpSingle ''DELETE'' (Some deleteIndex) None,
                              ResponseOpSingle ''INSERT'' (Some toIndex) (Some room)])))"

subsection \<open>ConnState.updateRoomSubscriptions\<close>

text \<open>
  The first loop, over the new subscriptions: the state, with its active subscriptions,
  and the result map are threaded through. Reading \<open>s.muxedReq.RoomSubscriptions\<close>
  panics when there is no muxed request.
\<close>

fun subscribeRooms ::
  "'q Collaborators \<Rightarrow> string list \<Rightarrow> ConnState \<times> (string \<times> Room) list
     \<Rightarrow> panic + (ConnState \<times> (string \<times> Room) list)" where
  "subscribeRooms c [] st = Inr st"
| "subscribeRooms c (rid # subs) (s, result) =
     (case muxedReq s of
        None \<Rightarrow> Inl NilDereference
      | Some m \<Rightarrow>
          (case map_of (req_RoomSubscriptions m) rid of
             None \<Rightarrow> subscribeRooms c subs (s, result)
           | Some sub \<Rightarrow>
               (let s' = s\<lparr>roomSubscriptions := AList.update rid sub (roomSubscriptions s)\<rparr>
                in and_then (and_then (getInitialRoomData c s' [rid]) first_elem)
                     (\<lambda>room. subscribeRooms c subs (s', AList.update rid room result)))))"

text \<open>The second loop, over the unsubscriptions.\<close>

definition unsubscribeRooms :: "string list \<Rightarrow> ConnState \<Rightarrow> ConnState" where
  "unsubscribeRooms unsubs s =
     s\<lparr>roomSubscriptions := fold (\<lambda>rid m. AList.delete rid m) unsubs (roomSubscriptions s)\<rparr>"

definition updateRoomSubscriptions ::
  "'q Collaborators \<Rightarrow> ConnState \<Rightarrow> string list \<Rightarrow> string list
     \<Rightarrow> panic + (ConnState \<times> (string \<times> Room) list)" where
  "updateRoomSubscriptions c s subs unsubs =
     and_then (subscribeRooms c subs (s, []))
       (\<lambda>(s', result). Inr (unsubscribeRooms unsubs s', result))"

subsection \<open>ConnState.OnNewEvent and ConnState.Destroy\<close>

text \<open>
  The \<open>select\<close> of OnNewEvent has two cases. Which one runs is decided by the channel and
  by the clock: the send proceeds when the channel holds fewer than
  MaxPendingEventUpdates events, or when the receiver makes room within 5 seconds;
  otherwise the timer fires. The case is an argument of the embedded function.
\<close>

datatype select_case = SendProceeds | TimerFires

definition OnNewEvent :: "ConnState \<Rightarrow> EventData \<Rightarrow> select_case \<Rightarrow> ConnState \<times> effect list" where
  "OnNewEvent s eventData which =
     (if latestPos eventData \<noteq> 0 \<and> latestPos eventData < loadPosition s
      then (s, [])
      else (case which of
              SendProceeds \<Rightarrow> (s\<lparr>updateEvents := updateEvents s @ [eventData]\<rparr>, [])
            | TimerFires \<Rightarrow>
                (s, [LogWarn ''cannot send event to connection, buffer exceeded''])))"

definition Destroy :: "ConnState \<Rightarrow> effect list" where
  "Destroy s = [Unsubscribe (userCacheID s)]"

definition OnUnreadCountsChanged ::
  "'q Collaborators \<Rightarrow> ConnState \<Rightarrow> string \<Rightarrow> string \<Rightarrow> UserRoomData \<Rightarrow> bool \<Rightarrow> select_case
     \<Rightarrow> ConnState \<times> effect list" where
  "OnUnreadCountsChanged c s user rid urd hasCountDecreased which =
     (if \<not> hasCountDecreased then (s, [])
      else (let room = LoadRoom c rid
            in OnNewEvent s
                 \<lparr>event = None, roomID = rid, latestPos = 0,
                  timestamp = LastMessageTimestamp room, userRoomData = Some urd\<rparr> which))"

subsection \<open>ConnState.onIncomingRequest and ConnState.HandleIncomingRequest\<close>

text \<open>The loop that sends full room data for the added ranges: one SYNC per range.\<close>

definition syncOp :: "'q Collaborators \<Rightarrow> ConnState \<Rightarrow> Range \<Rightarrow> panic + ResponseOp" where
  "syncOp c s r =
     and_then (first_elem (SliceInto [r] (sortedJoinedRooms s)))
       (\<lambda>rooms. and_then (getInitialRoomData c s (map RoomID rooms))
          (\<lambda>datas. Inr (ResponseOpRange ''SYNC'' [fst r, snd r] datas)))"

fun syncOps :: "'q Collaborators \<Rightarrow> ConnState \<Rightarrow> Range list \<Rightarrow> panic + ResponseOp list" where
  "syncOps c s [] = Inr []"
| "syncOps c s (r # rs) =
     and_then (syncOp c s r) (\<lambda>op1. and_then (syncOps c s rs) (\<lambda>ops. Inr (op1 # ops)))"

definition invalidateOps :: "Range list \<Rightarrow> ResponseOp list" where
  "invalidateOps rs = map (\<lambda>r. ResponseOpRange ''INVALIDATE'' [fst r, snd r] []) rs"

text \<open>
  onIncomingRequest. The blocking loop at its end (label \<open>blockloop\<close>) waits on the
  request context, on a 10 second timer and on the event channel, which other goroutines
  feed; it is the parameter \<open>blockloop\<close>, which is given the state, the response and the
  operations so far and returns them as the loop leaves them. The function returns the
  state it leaves and the pair (response, error) of the Go function, or panics.
\<close>

definition onIncomingRequest ::
  "'q Collaborators
     \<Rightarrow> (ConnState \<Rightarrow> Response \<Rightarrow> ResponseOp list \<Rightarrow> panic + (ConnState \<times> Response \<times> ResponseOp list))
     \<Rightarrow> ConnState \<Rightarrow> ConnRequest \<Rightarrow> panic + (ConnState \<times> Response \<times> error option)" where
  "onIncomingRequest c blockloop s req =
     (let prevRange = (case muxedReq s of None \<Rightarrow> None | Some m \<Rightarrow> req_Rooms m);
          prevSort = (case muxedReq s of None \<Rightarrow> None | Some m \<Rightarrow> req_Sort m);
          (muxed, newSubs, newUnsubs) =
             (case muxedReq s of
                None \<Rightarrow> (req, map fst (AList.clearjunk (req_RoomSubscriptions req)), [])
              | Some m \<Rightarrow> ApplyDelta3 c m req);
          s1 = s\<lparr>muxedReq := Some muxed\<rparr>
      in and_then (updateRoomSubscriptions c s1 newSubs newUnsubs)
           (\<lambda>(s2, roomSubs).
              (let response = \<lparr>Resp_RoomSubscriptions = roomSubs,
                               Count = int (length (sortedJoinedRooms s2)), Ops = []\<rparr>;
                   (added, removed, same) =
                      (case prevRange of
                         Some pr \<Rightarrow> RangesDelta c pr (req_Rooms muxed)
                       | None \<Rightarrow> (req_Rooms muxed, None, None));
                   sortChanged = (prevSort \<noteq> req_Sort muxed);
                   ops1 = (if sortChanged \<and> prevSort \<noteq> None
                           then invalidateOps (slice_elems (req_Rooms muxed)) else []);
                   s3 = (if sortChanged then ConnState_sort c s2 (req_Sort muxed) else s2);
                   added' = (if sortChanged then req_Rooms muxed else added);
                   removed' = (if sortChanged then None else removed);
                   same' = (if sortChanged then None else same);
                   ops2 = ops1 @ invalidateOps (slice_elems removed')
               in and_then (syncOps c s3 (slice_elems added'))
                    (\<lambda>syncs.
                       (let ops3 = ops2 @ syncs
                        in and_then
                             (if same' \<noteq> None \<and> length ops3 = 0
                                 \<and> length (Resp_RoomSubscriptions response) = 0
                              then blockloop s3 response ops3
                              else Inr (s3, response, ops3))
                             (\<lambda>(s4, response', ops4).
                                Inr (s4, response'\<lparr>Ops := ops4\<rparr>, None)))))))"

text \<open>
  HandleIncomingRequest. The call \<open>s.load(req)\<close> is a statement: the error it returns is
  not read.
\<close>

definition HandleIncomingRequest ::
  "'q Collaborators
     \<Rightarrow> (ConnState \<Rightarrow> Response \<Rightarrow> ResponseOp list \<Rightarrow> panic + (ConnState \<times> Response \<times> ResponseOp list))
     \<Rightarrow> ConnState \<Rightarrow> ConnRequest \<Rightarrow> panic + (ConnState \<times> Response \<times> error option)" where
  "HandleIncomingRequest c blockloop s req =
     (let s' = (if loadPosition s = 0 then snd (load c s req) else s)
      in onIncomingRequest c blockloop s' req)"

section \<open>Example values\<close>

text \<open>Concrete requests and lists at which the theorems below are evaluated.\<close>

definition mkRequest ::
  "RequestList list \<Rightarrow> (string \<times> RoomSubscription) list \<Rightarrow> string list \<Rightarrow> unit Request" where
  "mkRequest ls subs unsubs =
     \<lparr>TxnID = [], Lists = ls, RoomSubscriptions = subs, UnsubscribeRooms = unsubs,
      Extensions = (), pos = 0, timeoutMSecs = 0\<rparr>"

definition ex_prev_list :: RequestList where
  "ex_prev_list = \<lparr>RequiredState = Some [(''m.room.name'', [])], TimelineLimit = 10,
      Ranges = Some [(0, 9)], Sort = Some [''by_name''], Filters = None,
      SlowGetAllRooms = None\<rparr>"

definition ex_next_list :: RequestList where
  "ex_next_list = \<lparr>RequiredState = None, TimelineLimit = - 1,
      Ranges = None, Sort = Some [], Filters = None, SlowGetAllRooms = None\<rparr>"

definition ex_delta_list :: RequestList where
  "ex_delta_list = \<lparr>RequiredState = None, TimelineLimit = 0,
      Ranges = Some [(0, 19)], Sort = None, Filters = None, SlowGetAllRooms = None\<rparr>"

text \<open>A list as the JSON \<open>{"ranges": [[0, 9]], "sort": []}\<close> decodes.\<close>

definition ex_empty_sort_list :: RequestList where
  "ex_empty_sort_list = \<lparr>RequiredState = None, TimelineLimit = 0,
      Ranges = Some [(0, 9)], Sort = Some [], Filters = None, SlowGetAllRooms = None\<rparr>"

definition ex_windows :: RequestList where
  "ex_windows = \<lparr>RequiredState = None, TimelineLimit = 0,
      Ranges = Some [(1, 4), (7, 9)], Sort = None, Filters = None, SlowGetAllRooms = None\<rparr>"

definition ex_sub :: RoomSubscription where
  "ex_sub = \<lparr>RequiredState = None, TimelineLimit = 5\<rparr>"

text \<open>
  Collaborators for a user with no joined rooms on a server whose global cache fails to
  load them; every room that is asked for has one event and one notification.
\<close>

definition ex_collab :: "unit Collaborators" where
  "ex_collab =
     \<lparr>LoadJoinedRooms = (\<lambda>u. Inl ''upstream unavailable''),
      LoadRoom = (\<lambda>rid. \<lparr>RoomID = rid, LastMessageTimestamp = 7\<rparr>),
      LoadRoomState = (\<lambda>rid p q. []),
      lazilyLoadRoomDatas = (\<lambda>p rids n.
         map (\<lambda>rid. (rid, \<lparr>urd_NotificationCount = 1, urd_HighlightCount = 0,
                           urd_Timeline = [''{}'']\<rparr>)) rids),
      loadRoomData = (\<lambda>rid. \<lparr>urd_NotificationCount = 1, urd_HighlightCount = 0,
                           urd_Timeline = [''{}'']\<rparr>),
      RemoveHero = (\<lambda>u m. m),
      CalculateRoomName = (\<lambda>m n. ''room''),
      SortRooms = (\<lambda>keys rooms. rooms),
      RangesDelta = (\<lambda>p n. (None, None, n)),
      GetRequiredState = (\<lambda>r rid. ()),
      ApplyDelta3 = (\<lambda>p n. (n, [], [])),
      ToLower = (\<lambda>x. x),
      Trim = (\<lambda>x cut. x)\<rparr>"

definition ex_event :: EventData where
  "ex_event = \<lparr>event = Some ''{}'', roomID = ''!r'', latestPos = 9, timestamp = 3,
      userRoomData = None\<rparr>"

definition ex_conn_request :: ConnRequest where
  "ex_conn_request = \<lparr>req_Rooms = Some [(0, 4)], req_Sort = Some [''by_recency''],
      req_TimelineLimit = 1, req_RoomSubscriptions = [(''!r'', ex_sub)]\<rparr>"

text \<open>The payload that \<open>ex_collab\<close> gives for a room.\<close>

definition ex_room :: "string \<Rightarrow> Room" where
  "ex_room rid = \<lparr>Room_RoomID = rid, Room_Name = ''room'', Room_NotificationCount = 1,
      Room_HighlightCount = 0, Room_Timeline = [''{}''], Room_RequiredState = []\<rparr>"

text \<open>A connection that has handled the request \<open>ex_conn_request\<close>.\<close>

definition ex_conn :: ConnState where
  "ex_conn = (NewConnState ''@u'' 1)\<lparr>muxedReq := Some ex_conn_request, loadPosition := 5\<rparr>"






section \<open>Generalised move: CalculateMoveIndexes\<close>

lemma find_Some_unique:
  assumes "r \<in> set rs" and "P r" and "\<And>s. s \<in> set rs \<Longrightarrow> P s \<Longrightarrow> s = r"
  shows "find P rs = Some r"
proof -
  from assms(1,2) obtain x where "find P rs = Some x"
    by (cases "find P rs") (auto simp: find_None_iff)
  moreover from this have "x \<in> set rs" and "P x"
    by (auto simp: find_Some_iff)
  ultimately show ?thesis using assms(3) by auto
qed

lemma non_overlapping_unique:
  assumes "non_overlapping rs" and "r \<in> set rs" and "s \<in> set rs"
    and "fst r \<le> i" and "i \<le> snd r" and "fst s \<le> i" and "i \<le> snd s"
  shows "s = r"
  using assms by (induction rs) (auto simp: list_all_iff)

lemma Inside_in_range:
  assumes "non_overlapping rs" and "r \<in> set rs" and "fst r \<le> i" and "i \<le> snd r"
  shows "Inside rs i = Some r"
  unfolding Inside_def
  by (rule find_Some_unique) (use assms non_overlapping_unique in blast)+

lemma Inside_None_iff: "Inside rs i = None \<longleftrightarrow> (\<forall>r \<in> set rs. \<not> (fst r \<le> i \<and> i \<le> snd r))"
  by (auto simp: Inside_def find_None_iff)

lemma jumpedOverRanges_spec:
  "jumpedOverRanges rl fromIndex toIndex =
     filter (\<lambda>r. min fromIndex toIndex < fst r \<and> fst r < max fromIndex toIndex
                \<and> min fromIndex toIndex < snd r \<and> snd r < max fromIndex toIndex)
       (slice_elems (Ranges rl))"
  unfolding jumpedOverRanges_def Let_def
  by (rule filter_cong) (auto simp: min_def max_def)

text \<open>
  Claim C2. For ranges that are pairwise non-overlapping (the invariant of the data
  model), CalculateMoveIndexes returns the single pair \<open>(fromIndex, toIndex)\<close> with
  \<open>ok = true\<close> when both indexes lie inside the same range \<open>r\<close> (case A). When both
  indexes lie outside every range (case C) it returns \<open>ok = false\<close> and no pair if no
  range is jumped over, and otherwise one pair per jumped-over range, \<open>(hi, lo)\<close> when
  \<open>fromIndex > toIndex\<close> and \<open>(lo, hi)\<close> otherwise; a jumped-over range is one whose \<open>lo\<close>
  and \<open>hi\<close> both lie strictly between the smaller and the larger of the two indexes.
\<close>

theorem CalculateMoveIndexes_cases:
  fixes rl :: RequestList and fromIndex toIndex :: int
  shows
  "(non_overlapping (slice_elems (Ranges rl)) \<and> r \<in> set (slice_elems (Ranges rl))
      \<and> fst r \<le> fromIndex \<and> fromIndex \<le> snd r \<and> fst r \<le> toIndex \<and> toIndex \<le> snd r
     \<longrightarrow> CalculateMoveIndexes rl fromIndex toIndex = ([(fromIndex, toIndex)], True))
   \<and> ((\<forall>s \<in> set (slice_elems (Ranges rl)).
          \<not> (fst s \<le> fromIndex \<and> fromIndex \<le> snd s) \<and> \<not> (fst s \<le> toIndex \<and> toIndex \<le> snd s))
     \<longrightarrow> CalculateMoveIndexes rl fromIndex toIndex =
          (let jumped = filter (\<lambda>s. min fromIndex toIndex < fst s \<and> fst s < max fromIndex toIndex
                                   \<and> min fromIndex toIndex < snd s \<and> snd s < max fromIndex toIndex)
                          (slice_elems (Ranges rl))
           in if jumped = [] then ([], False)
              else (map (\<lambda>s. if fromIndex > toIndex then (snd s, fst s) else (fst s, snd s)) jumped,
                    True)))"
proof (intro conjI impI)
  assume a: "non_overlapping (slice_elems (Ranges rl)) \<and> r \<in> set (slice_elems (Ranges rl))
      \<and> fst r \<le> fromIndex \<and> fromIndex \<le> snd r \<and> fst r \<le> toIndex \<and> toIndex \<le> snd r"
  then have "Inside (slice_elems (Ranges rl)) fromIndex = Some r"
    and "Inside (slice_elems (Ranges rl)) toIndex = Some r"
    by (simp_all add: Inside_in_range)
  then show "CalculateMoveIndexes rl fromIndex toIndex = ([(fromIndex, toIndex)], True)"
    by (simp add: CalculateMoveIndexes_def)
next
  assume c: "\<forall>s \<in> set (slice_elems (Ranges rl)).
          \<not> (fst s \<le> fromIndex \<and> fromIndex \<le> snd s) \<and> \<not> (fst s \<le> toIndex \<and> toIndex \<le> snd s)"
  then have n: "Inside (slice_elems (Ranges rl)) fromIndex = None"
    "Inside (slice_elems (Ranges rl)) toIndex = None"
    by (simp_all add: Inside_None_iff)
  have m: "jumpedFromTo fromIndex toIndex = (\<lambda>s. if fromIndex > toIndex then (snd s, fst s) else (fst s, snd s))"
    by (rule ext) (simp add: jumpedFromTo_def)
  show "CalculateMoveIndexes rl fromIndex toIndex =
          (let jumped = filter (\<lambda>s. min fromIndex toIndex < fst s \<and> fst s < max fromIndex toIndex
                                   \<and> min fromIndex toIndex < snd s \<and> snd s < max fromIndex toIndex)
                          (slice_elems (Ranges rl))
           in if jumped = [] then ([], False)
              else (map (\<lambda>s. if fromIndex > toIndex then (snd s, fst s) else (fst s, snd s)) jumped,
                    True))"
    unfolding CalculateMoveIndexes_def jumpedOverRanges_spec m using n
    by (simp add: Let_def)
qed

text \<open>
  The rows of the table in the source's comment, for the ranges \<open>[1,4],[7,9]\<close>: a move
  inside one range, a move outside the ranges that jumps over both, and a move outside
  the ranges that jumps over none.
\<close>

theorem CalculateMoveIndexes_cases_witness:
  "CalculateMoveIndexes ex_windows 3 2 = ([(3, 2)], True)
   \<and> CalculateMoveIndexes ex_windows 10 0 = ([(4, 1), (9, 7)], True)
   \<and> CalculateMoveIndexes ex_windows 5 6 = ([], False)"
  using CalculateMoveIndexes_cases [of ex_windows "(1, 4)" 3 2]
    CalculateMoveIndexes_cases [of ex_windows "(1, 4)" 10 0]
    CalculateMoveIndexes_cases [of ex_windows "(1, 4)" 5 6]
  by (simp add: slice_elems_def ex_windows_def)

section \<open>Request.ApplyDelta\<close>

subsection \<open>The subscription map and the two unsubscribe loops\<close>

lemma map_of_fold_update:
  "distinct (map fst xs) \<Longrightarrow>
   map_of (fold (\<lambda>kv m. AList.update (fst kv) (snd kv) m) xs dst) = map_of dst ++ map_of xs"
proof (induction xs arbitrary: dst)
  case Nil
  then show ?case by simp
next
  case (Cons kv xs)
  from Cons.prems have n: "map_of xs (fst kv) = None"
    by (simp add: map_of_eq_None_iff)
  have "map_of (fold (\<lambda>kv m. AList.update (fst kv) (snd kv) m) (kv # xs) dst)
        = (map_of dst)(fst kv \<mapsto> snd kv) ++ map_of xs"
    using Cons by (simp add: update_conv')
  also have "\<dots> = map_of dst ++ map_of (kv # xs)"
    using n by (cases kv) (auto simp: map_add_def fun_eq_iff split: option.splits)
  finally show ?case .
qed

lemma map_of_copy_into: "map_of (copy_into src dst) = map_of dst ++ map_of src"
  unfolding copy_into_def
  by (simp add: map_of_fold_update distinct_clearjunk map_of_clearjunk)

lemma fst_applyUnsubs:
  "map_of (fst (applyUnsubs reported roomIDs (m, u))) = map_of m |` (- set roomIDs)"
proof (induction roomIDs arbitrary: m u)
  case Nil
  then show ?case by (simp add: applyUnsubs_def)
next
  case (Cons k ks)
  have "applyUnsubs reported (k # ks) (m, u) =
        applyUnsubs reported ks (AList.delete k m,
          if map_of m k \<noteq> None \<and> reported k then u @ [k] else u)"
    by (simp add: applyUnsubs_def)
  then show ?case
    using Cons.IH by (auto simp: delete_conv' restrict_map_def fun_eq_iff)
qed

lemma snd_applyUnsubs:
  "set (snd (applyUnsubs reported roomIDs (m, u))) =
     set u \<union> {k \<in> set roomIDs. map_of m k \<noteq> None \<and> reported k}"
proof (induction roomIDs arbitrary: m u)
  case Nil
  then show ?case by (simp add: applyUnsubs_def)
next
  case (Cons k ks)
  have "applyUnsubs reported (k # ks) (m, u) =
        applyUnsubs reported ks (AList.delete k m,
          if map_of m k \<noteq> None \<and> reported k then u @ [k] else u)"
    by (simp add: applyUnsubs_def)
  then show ?case
    using Cons.IH by (auto simp: delete_conv')
qed


lemma ApplyDelta_RoomSubscriptions:
  "map_of (RoomSubscriptions (fst (ApplyDelta extApply r nextReq))) =
     ((map_of (prevSubscriptions r) |` (- set (prevUnsubscribes r)))
        ++ map_of (RoomSubscriptions nextReq)) |` (- set (UnsubscribeRooms nextReq))"
proof -
  obtain m1 u1 where s1: "applyUnsubs (\<lambda>roomID. True) (prevUnsubscribes r)
                  (copy_into (prevSubscriptions r) [], []) = (m1, u1)"
    by (cases "applyUnsubs (\<lambda>roomID. True) (prevUnsubscribes r)
                  (copy_into (prevSubscriptions r) [], [])") auto
  have m1: "map_of m1 = map_of (prevSubscriptions r) |` (- set (prevUnsubscribes r))"
    using fst_applyUnsubs [of "\<lambda>roomID. True" "prevUnsubscribes r" "copy_into (prevSubscriptions r) []" "[]"]
    by (simp add: s1 map_of_copy_into)
  have "map_of (RoomSubscriptions (fst (ApplyDelta extApply r nextReq))) =
        map_of (copy_into (RoomSubscriptions nextReq) m1) |` (- set (UnsubscribeRooms nextReq))"
    by (simp add: ApplyDelta_def Let_def s1 fst_applyUnsubs)
  then show ?thesis
    by (simp add: map_of_copy_into m1)
qed

lemma ApplyDelta_Subs:
  "set (Subs (fst (snd (ApplyDelta extApply r nextReq)))) =
     dom (map_of (RoomSubscriptions (fst (ApplyDelta extApply r nextReq))))
       - dom (map_of (prevSubscriptions r))"
proof -
  have "set (map fst (AList.clearjunk al)) = dom (map_of al)" for al :: "(string \<times> RoomSubscription) list"
    using dom_map_of_conv_image_fst [of "AList.clearjunk al"] by (simp add: map_of_clearjunk)
  then show ?thesis
    by (auto simp: ApplyDelta_def Let_def)
qed

lemma ApplyDelta_Unsubs:
  "set (Unsubs (fst (snd (ApplyDelta extApply r nextReq)))) =
     {k \<in> dom (map_of (prevSubscriptions r)).
        k \<in> set (prevUnsubscribes r)
        \<or> (k \<in> set (UnsubscribeRooms nextReq) \<and> k \<notin> dom (map_of (RoomSubscriptions nextReq)))}"
proof -
  obtain m1 u1 where s1: "applyUnsubs (\<lambda>roomID. True) (prevUnsubscribes r)
                  (copy_into (prevSubscriptions r) [], []) = (m1, u1)"
    by (cases "applyUnsubs (\<lambda>roomID. True) (prevUnsubscribes r)
                  (copy_into (prevSubscriptions r) [], [])") auto
  have m1: "map_of m1 = map_of (prevSubscriptions r) |` (- set (prevUnsubscribes r))"
    using fst_applyUnsubs [of "\<lambda>roomID. True" "prevUnsubscribes r" "copy_into (prevSubscriptions r) []" "[]"]
    by (simp add: s1 map_of_copy_into)
  have u1: "set u1 = {k \<in> set (prevUnsubscribes r). map_of (prevSubscriptions r) k \<noteq> None}"
    using snd_applyUnsubs [of "\<lambda>roomID. True" "prevUnsubscribes r" "copy_into (prevSubscriptions r) []" "[]"]
    by (simp add: s1 map_of_copy_into)
  have "set (Unsubs (fst (snd (ApplyDelta extApply r nextReq)))) =
        set u1 \<union> {k \<in> set (UnsubscribeRooms nextReq).
                     map_of (copy_into (RoomSubscriptions nextReq) m1) k \<noteq> None
                     \<and> map_of (RoomSubscriptions nextReq) k = None}"
    by (simp add: ApplyDelta_def Let_def s1 snd_applyUnsubs)
  then show ?thesis
    unfolding u1 map_of_copy_into m1
    by (auto simp: map_add_def restrict_map_def dom_def split: option.splits if_splits)
qed

subsection \<open>The lists\<close>

lemma ApplyDelta_Lists:
  "Lists (fst (ApplyDelta extApply r nextReq)) =
     map (\<lambda>i. fst (applyListDelta (list_at (prevLists r) i) (Lists nextReq ! i)))
       [0 ..< length (Lists nextReq)]"
  by (simp add: ApplyDelta_def Let_def)

lemma ApplyDelta_next_Lists:
  "Lists (snd (snd (ApplyDelta extApply r nextReq))) =
     map (\<lambda>i. snd (applyListDelta (list_at (prevLists r) i) (Lists nextReq ! i)))
       [0 ..< length (Lists nextReq)]"
  by (simp add: ApplyDelta_def Let_def)

lemma applyListDelta_None:
  "applyListDelta None inc =
     (inc\<lparr>Sort := (if slice_len (Sort inc) = 0 then Some [SortByRecency] else Sort inc)\<rparr>,
      inc\<lparr>Sort := (if slice_len (Sort inc) = 0 then Some [SortByRecency] else Sort inc)\<rparr>)"
  by (simp add: applyListDelta_def Let_def)

lemma applyListDelta_Some:
  "fst (applyListDelta (Some prev) inc) =
     \<lparr>RequiredState = (if RequiredState inc \<noteq> None then RequiredState inc else RequiredState prev),
      TimelineLimit = (if TimelineLimit inc \<noteq> 0 then TimelineLimit inc else TimelineLimit prev),
      Ranges = (if Ranges inc \<noteq> None then Ranges inc else Ranges prev),
      Sort = (if Sort inc \<noteq> None then Sort inc else Sort prev),
      Filters = (if Filters inc \<noteq> None then Filters inc else Filters prev),
      SlowGetAllRooms = (if SlowGetAllRooms inc \<noteq> None then SlowGetAllRooms inc
                         else SlowGetAllRooms prev)\<rparr>"
  by (auto simp: applyListDelta_def Let_def split: option.splits)

lemma applyListDelta_Some_snd: "snd (applyListDelta (Some prev) inc) = inc"
  by (simp add: applyListDelta_def Let_def)

lemma applyListDelta_spec:
  assumes "Sort inc \<noteq> Some []" and "0 \<le> TimelineLimit inc"
  shows "fst (applyListDelta (Some prev) inc) = spec_merge_list prev inc"
proof -
  have "(Sort inc \<noteq> None) = (slice_len (Sort inc) \<noteq> 0)"
    using assms(1) by (cases "Sort inc") (auto simp: slice_len_def)
  moreover have "(TimelineLimit inc \<noteq> 0) = (TimelineLimit inc > 0)"
    using assms(2) by auto
  ultimately show ?thesis
    unfolding applyListDelta_Some spec_merge_list_def by simp
qed

lemma applyListDelta_same: "applyListDelta (Some l) l = (l, l)"
  by (cases l) (auto simp: applyListDelta_def Let_def split: option.splits)

lemma applyListDelta_defaulted:
  "Sort l \<noteq> Some [] \<Longrightarrow> fst (applyListDelta (Some (defaultSort l)) l) = defaultSort l"
  by (cases l; cases "Sort l")
     (auto simp: applyListDelta_def Let_def defaultSort_def slice_len_def split: option.splits)

lemma map_index:
  "map (\<lambda>i. f (xs ! i)) [0 ..< length xs] = map f xs"
proof -
  have "map (\<lambda>i. f (xs ! i)) [0 ..< length xs] = map f (map ((!) xs) [0 ..< length xs])"
    by (simp add: comp_def)
  then show ?thesis
    by (simp only: map_nth)
qed

lemma ApplyDelta_nil_Lists:
  "Lists (fst (ApplyDelta extApply None r)) = map defaultSort (Lists r)"
  "Lists (snd (snd (ApplyDelta extApply None r))) = map defaultSort (Lists r)"
proof -
  have d: "fst (applyListDelta None l) = defaultSort l" "snd (applyListDelta None l) = defaultSort l" for l
    by (simp_all add: applyListDelta_None defaultSort_def)
  show "Lists (fst (ApplyDelta extApply None r)) = map defaultSort (Lists r)"
    unfolding ApplyDelta_Lists prevLists_def list_at_def
    using map_index [of defaultSort "Lists r"] by (simp add: d)
  show "Lists (snd (snd (ApplyDelta extApply None r))) = map defaultSort (Lists r)"
    unfolding ApplyDelta_next_Lists prevLists_def list_at_def
    using map_index [of defaultSort "Lists r"] by (simp add: d)
qed

lemma ApplyDelta_next_other:
  "RoomSubscriptions (snd (snd (ApplyDelta extApply r nextReq))) = RoomSubscriptions nextReq"
  "UnsubscribeRooms (snd (snd (ApplyDelta extApply r nextReq))) = UnsubscribeRooms nextReq"
  "snd (snd (ApplyDelta extApply r nextReq))
     = nextReq\<lparr>Lists := Lists (snd (snd (ApplyDelta extApply r nextReq)))\<rparr>"
  by (simp_all add: ApplyDelta_def Let_def)

lemma ApplyDelta_result_UnsubscribeRooms:
  "UnsubscribeRooms (fst (ApplyDelta extApply r nextReq)) = []"
  by (simp add: ApplyDelta_def Let_def)

lemma map_upt_nth:
  assumes "\<And>i. i < length xs \<Longrightarrow> f i = xs ! i"
  shows "map f [0 ..< length xs] = xs"
proof -
  have "map f [0 ..< length xs] = map ((!) xs) [0 ..< length xs]"
    by (rule map_cong) (simp_all add: assms)
  then show ?thesis
    by (simp only: map_nth)
qed

lemma ApplyDelta_again_Lists:
  assumes "list_all2 (\<lambda>p n. fst (applyListDelta (Some p) n) = p) ps (Lists nextReq)"
  shows "Lists (fst (ApplyDelta extApply (Some (prev\<lparr>Lists := ps\<rparr>)) nextReq)) = ps"
proof -
  have len: "length (Lists nextReq) = length ps"
    using assms by (simp add: list_all2_lengthD)
  have "fst (applyListDelta (list_at ps i) (Lists nextReq ! i)) = ps ! i" if "i < length ps" for i
    using list_all2_nthD [OF assms that] that by (simp add: list_at_def)
  then have "map (\<lambda>i. fst (applyListDelta (list_at ps i) (Lists nextReq ! i))) [0 ..< length ps] = ps"
    by (rule map_upt_nth)
  then show ?thesis
    unfolding ApplyDelta_Lists prevLists_def by (simp add: len)
qed

subsection \<open>Per-list merging\<close>

text \<open>
  Claim C3, as amended. For every previous request (possibly nil), every incoming
  request and every list position \<open>i\<close> of the incoming request, the result has as many
  lists as the incoming request, and its list at \<open>i\<close> is as follows. If the previous
  request has no list at \<open>i\<close>, it is the incoming list as it stands, with the sort order
  \<open>[by_recency]\<close> if the incoming sort is empty. If the previous request has a list at
  \<open>i\<close>, then ranges, required-state, filters, slow-get-all-rooms and sort are the
  incoming ones when set (not nil) and the previous ones otherwise, and timeline-limit
  is the incoming one when it is not \<open>0\<close> and the previous one otherwise. This is the
  table of the specification whenever the incoming sort is not an explicitly empty list
  and the incoming timeline-limit is not negative.
\<close>

theorem ApplyDelta_list_merge:
  assumes "i < length (Lists nextReq)"
  shows "case ApplyDelta extApply r nextReq of (result, delta, nextReq') \<Rightarrow>
     length (Lists result) = length (Lists nextReq) \<and>
     (let res = Lists result ! i; inc = Lists nextReq ! i
      in case list_at (prevLists r) i of
           None \<Rightarrow>
             res = inc\<lparr>Sort := (if slice_len (Sort inc) = 0 then Some [SortByRecency]
                                else Sort inc)\<rparr>
         | Some prev \<Rightarrow>
             Ranges res = (if Ranges inc \<noteq> None then Ranges inc else Ranges prev)
           \<and> RequiredState res = (if RequiredState inc \<noteq> None then RequiredState inc
                                   else RequiredState prev)
           \<and> Filters res = (if Filters inc \<noteq> None then Filters inc else Filters prev)
           \<and> SlowGetAllRooms res = (if SlowGetAllRooms inc \<noteq> None then SlowGetAllRooms inc
                                     else SlowGetAllRooms prev)
           \<and> Sort res = (if Sort inc \<noteq> None then Sort inc else Sort prev)
           \<and> TimelineLimit res = (if TimelineLimit inc \<noteq> 0 then TimelineLimit inc
                                   else TimelineLimit prev)
           \<and> (Sort inc \<noteq> Some [] \<and> 0 \<le> TimelineLimit inc
                \<longrightarrow> res = spec_merge_list prev inc))"
proof -
  obtain result delta nextReq' where e: "ApplyDelta extApply r nextReq = (result, delta, nextReq')"
    by (cases "ApplyDelta extApply r nextReq") auto
  have L: "Lists result = map (\<lambda>i. fst (applyListDelta (list_at (prevLists r) i) (Lists nextReq ! i)))
       [0 ..< length (Lists nextReq)]"
    using ApplyDelta_Lists [of extApply r nextReq] e by simp
  then have n: "Lists result ! i = fst (applyListDelta (list_at (prevLists r) i) (Lists nextReq ! i))"
    using assms by simp
  show ?thesis
  proof (cases "list_at (prevLists r) i")
    case None
    then show ?thesis using e L n by (simp add: applyListDelta_None)
  next
    case (Some prev)
    then show ?thesis using e L n
      by (simp add: applyListDelta_Some applyListDelta_spec [symmetric] del: )
  qed
qed


text \<open>
  The claim as stated fails where the incoming list has an explicitly empty sort (the
  JSON \<open>"sort": []\<close>) or a negative timeline-limit, and the previous request has a list
  at that position: the source tests \<open>sort == nil\<close> and \<open>timelineLimit == 0\<close>, so both
  incoming values are kept, where the table takes the previous ones.
\<close>

theorem ApplyDelta_list_merge_counterexample:
  "Sort (Lists (fst (ApplyDelta (\<lambda>a b. b) (Some (mkRequest [ex_prev_list] [] []))
                       (mkRequest [ex_next_list] [] []))) ! 0) = Some []
   \<and> TimelineLimit (Lists (fst (ApplyDelta (\<lambda>a b. b) (Some (mkRequest [ex_prev_list] [] []))
                       (mkRequest [ex_next_list] [] []))) ! 0) = - 1
   \<and> Sort (spec_merge_list ex_prev_list ex_next_list) = Some [''by_name'']
   \<and> TimelineLimit (spec_merge_list ex_prev_list ex_next_list) = 10"
  by (simp add: ApplyDelta_def Let_def mkRequest_def ex_prev_list_def ex_next_list_def
      spec_merge_list_def applyListDelta_def list_at_def prevLists_def slice_len_def)

text \<open>
  The theorem at a request that sets only the ranges of its one list, on top of a
  previous request and on top of none.
\<close>

theorem ApplyDelta_list_merge_witness:
  "Lists (fst (ApplyDelta (\<lambda>a b. b) (Some (mkRequest [ex_prev_list] [] []))
                 (mkRequest [ex_delta_list] [] []))) ! 0
     = \<lparr>RequiredState = Some [(''m.room.name'', [])], TimelineLimit = 10,
        Ranges = Some [(0, 19)], Sort = Some [''by_name''], Filters = None,
        SlowGetAllRooms = None\<rparr>
   \<and> Lists (fst (ApplyDelta (\<lambda>a b. b) None (mkRequest [ex_delta_list] [] []))) ! 0
     = \<lparr>RequiredState = None, TimelineLimit = 0,
        Ranges = Some [(0, 19)], Sort = Some [''by_recency''], Filters = None,
        SlowGetAllRooms = None\<rparr>"
  using ApplyDelta_list_merge [where i = 0 and nextReq = "mkRequest [ex_delta_list] [] []"
          and extApply = "\<lambda>a b. b" and r = "Some (mkRequest [ex_prev_list] [] [])"]
    ApplyDelta_list_merge [where i = 0 and nextReq = "mkRequest [ex_delta_list] [] []"
          and extApply = "\<lambda>a b. b" and r = None]
  by (simp add: mkRequest_def ex_prev_list_def ex_delta_list_def list_at_def prevLists_def
      spec_merge_list_def slice_len_def SortByRecency_def Let_def split: prod.splits)


subsection \<open>Subscription merging\<close>

text \<open>
  Claim C4, as amended. With \<open>P\<close> the previous subscriptions, \<open>PU\<close> the previous
  unsubscribes, \<open>N\<close> the incoming subscriptions and \<open>NU\<close> the incoming unsubscribes:
  the resulting subscription map is \<open>P\<close> without \<open>PU\<close>, overridden by \<open>N\<close>, without
  \<open>NU\<close>. A room in both \<open>N\<close> and \<open>NU\<close> ends up unsubscribed, and is reported in
  \<open>delta.unsubs\<close> only if the previous unsubscribes had already removed it from the
  previous subscriptions. \<open>delta.subs\<close> is exactly the identifiers in the result that are
  not in \<open>P\<close>. \<open>delta.unsubs\<close> is exactly the identifiers of \<open>P\<close> that are in \<open>PU\<close>, or in
  \<open>NU\<close> and not in \<open>N\<close>. Whenever no identifier is at once in \<open>P\<close>, in \<open>PU\<close> and in \<open>N\<close>
  (so whenever the previous request has no unsubscribes, as every request that
  ApplyDelta returns), \<open>delta.unsubs\<close> is exactly the identifiers dropped from the
  previous subscriptions, but for those both subscribed and unsubscribed by the
  incoming request.
\<close>

theorem ApplyDelta_subscriptions:
  "case ApplyDelta extApply r nextReq of (result, delta, nextReq') \<Rightarrow>
     (let P = map_of (prevSubscriptions r); PU = set (prevUnsubscribes r);
          N = map_of (RoomSubscriptions nextReq); NU = set (UnsubscribeRooms nextReq);
          R = map_of (RoomSubscriptions result)
      in R = ((P |` (- PU)) ++ N) |` (- NU)
       \<and> (\<forall>k. k \<in> dom N \<and> k \<in> NU \<longrightarrow>
              R k = None \<and> (k \<in> set (Unsubs delta) \<longleftrightarrow> k \<in> dom P \<and> k \<in> PU))
       \<and> set (Subs delta) = dom R - dom P
       \<and> set (Unsubs delta) = {k \<in> dom P. k \<in> PU \<or> (k \<in> NU \<and> k \<notin> dom N)}
       \<and> (dom P \<inter> PU \<inter> dom N = {} \<longrightarrow>
            set (Unsubs delta) = spec_unsubs (prevSubscriptions r) (RoomSubscriptions nextReq)
                                   (UnsubscribeRooms nextReq) (RoomSubscriptions result)))"
proof -
  obtain result delta nextReq' where e: "ApplyDelta extApply r nextReq = (result, delta, nextReq')"
    by (cases "ApplyDelta extApply r nextReq") auto
  define P where "P = map_of (prevSubscriptions r)"
  define PU where "PU = set (prevUnsubscribes r)"
  define N where "N = map_of (RoomSubscriptions nextReq)"
  define NU where "NU = set (UnsubscribeRooms nextReq)"
  define R where "R = map_of (RoomSubscriptions result)"
  have R: "R = ((P |` (- PU)) ++ N) |` (- NU)"
    using ApplyDelta_RoomSubscriptions [of extApply r nextReq] e
    by (simp add: P_def PU_def N_def NU_def R_def)
  have S: "set (Subs delta) = dom R - dom P"
    using ApplyDelta_Subs [of extApply r nextReq] e by (simp add: P_def R_def)
  have U: "set (Unsubs delta) = {k \<in> dom P. k \<in> PU \<or> (k \<in> NU \<and> k \<notin> dom N)}"
    using ApplyDelta_Unsubs [of extApply r nextReq] e by (simp add: P_def PU_def N_def NU_def)
  have B: "\<forall>k. k \<in> dom N \<and> k \<in> NU \<longrightarrow>
              R k = None \<and> (k \<in> set (Unsubs delta) \<longleftrightarrow> k \<in> dom P \<and> k \<in> PU)"
    unfolding U R by (auto simp: restrict_map_def)
  have C: "set (Unsubs delta) = spec_unsubs (prevSubscriptions r) (RoomSubscriptions nextReq)
                                   (UnsubscribeRooms nextReq) (RoomSubscriptions result)"
    if d: "dom P \<inter> PU \<inter> dom N = {}"
  proof -
    have "spec_unsubs (prevSubscriptions r) (RoomSubscriptions nextReq)
            (UnsubscribeRooms nextReq) (RoomSubscriptions result)
          = {k \<in> dom P. R k = None \<and> \<not> (k \<in> dom N \<and> k \<in> NU)}"
      unfolding spec_unsubs_def P_def N_def NU_def R_def
      by (auto simp: dom_map_of_conv_image_fst [symmetric] dom_def)
    also have "\<dots> = {k \<in> dom P. k \<in> PU \<or> (k \<in> NU \<and> k \<notin> dom N)}"
      using d unfolding R
      by (auto simp: restrict_map_def map_add_def dom_def split: option.splits if_splits)
    finally show ?thesis using U by simp
  qed
  show ?thesis
    using R B S U C
    by (simp add: e Let_def P_def PU_def N_def NU_def R_def)
qed


text \<open>
  The claim as stated fails for a previous request that still carries an unsubscribe:
  room \<open>!a\<close> is subscribed and unsubscribed in the previous request, and subscribed and
  unsubscribed again in the incoming one. It is in both the incoming subscriptions and
  the incoming unsubscribes, and it is reported in \<open>delta.unsubs\<close>, by the loop over the
  previous unsubscribes; the claimed \<open>delta.unsubs\<close> is empty.
\<close>

theorem ApplyDelta_subscriptions_counterexample:
  "Unsubs (fst (snd (ApplyDelta (\<lambda>a b. b) (Some (mkRequest [] [(''!a'', ex_sub)] [''!a'']))
                       (mkRequest [] [(''!a'', ex_sub)] [''!a''])))) = [''!a'']
   \<and> map_of (RoomSubscriptions (mkRequest [] [(''!a'', ex_sub)] [''!a''])) ''!a'' = Some ex_sub
   \<and> ''!a'' \<in> set (UnsubscribeRooms (mkRequest [] [(''!a'', ex_sub)] [''!a'']))
   \<and> map_of (RoomSubscriptions (fst (ApplyDelta (\<lambda>a b. b)
                (Some (mkRequest [] [(''!a'', ex_sub)] [''!a'']))
                (mkRequest [] [(''!a'', ex_sub)] [''!a''])))) ''!a'' = None
   \<and> spec_unsubs [(''!a'', ex_sub)] [(''!a'', ex_sub)] [''!a'']
        (RoomSubscriptions (fst (ApplyDelta (\<lambda>a b. b)
                (Some (mkRequest [] [(''!a'', ex_sub)] [''!a'']))
                (mkRequest [] [(''!a'', ex_sub)] [''!a''])))) = {}"
  by (simp add: ApplyDelta_def Let_def mkRequest_def spec_unsubs_def applyUnsubs_def
      copy_into_def prevSubscriptions_def prevUnsubscribes_def prevLists_def)

text \<open>
  The theorem at a previous request subscribed to \<open>!a\<close> and \<open>!b\<close>, and an incoming
  request that subscribes to \<open>!c\<close> and \<open>!d\<close> and unsubscribes from \<open>!b\<close> and \<open>!d\<close>.
\<close>

theorem ApplyDelta_subscriptions_witness:
  "map fst (RoomSubscriptions (fst (ApplyDelta (\<lambda>a b. b)
       (Some (mkRequest [] [(''!a'', ex_sub), (''!b'', ex_sub)] []))
       (mkRequest [] [(''!c'', ex_sub), (''!d'', ex_sub)] [''!b'', ''!d''])))) = [''!a'', ''!c'']
   \<and> Subs (fst (snd (ApplyDelta (\<lambda>a b. b)
       (Some (mkRequest [] [(''!a'', ex_sub), (''!b'', ex_sub)] []))
       (mkRequest [] [(''!c'', ex_sub), (''!d'', ex_sub)] [''!b'', ''!d''])))) = [''!c'']
   \<and> Unsubs (fst (snd (ApplyDelta (\<lambda>a b. b)
       (Some (mkRequest [] [(''!a'', ex_sub), (''!b'', ex_sub)] []))
       (mkRequest [] [(''!c'', ex_sub), (''!d'', ex_sub)] [''!b'', ''!d''])))) = [''!b'']
   \<and> set (Unsubs (fst (snd (ApplyDelta (\<lambda>a b. b)
       (Some (mkRequest [] [(''!a'', ex_sub), (''!b'', ex_sub)] []))
       (mkRequest [] [(''!c'', ex_sub), (''!d'', ex_sub)] [''!b'', ''!d''])))))
       = spec_unsubs [(''!a'', ex_sub), (''!b'', ex_sub)] [(''!c'', ex_sub), (''!d'', ex_sub)]
           [''!b'', ''!d'']
           (RoomSubscriptions (fst (ApplyDelta (\<lambda>a b. b)
              (Some (mkRequest [] [(''!a'', ex_sub), (''!b'', ex_sub)] []))
              (mkRequest [] [(''!c'', ex_sub), (''!d'', ex_sub)] [''!b'', ''!d'']))))"
  using ApplyDelta_subscriptions [where extApply = "\<lambda>a b. b"
      and r = "Some (mkRequest [] [(''!a'', ex_sub), (''!b'', ex_sub)] [])"
      and nextReq = "mkRequest [] [(''!c'', ex_sub), (''!d'', ex_sub)] [''!b'', ''!d'']"]
  by (auto simp: ApplyDelta_def Let_def mkRequest_def spec_unsubs_def applyUnsubs_def
      copy_into_def prevSubscriptions_def prevUnsubscribes_def prevLists_def)

subsection \<open>Idempotence\<close>

text \<open>
  Claim C9, as amended. For every request \<open>r\<close> none of whose lists has an explicitly
  empty sort (the JSON \<open>"sort": []\<close>), applying \<open>r\<close> to the result of
  \<open>ApplyDelta(nil, r)\<close> gives the same lists and the same subscription map as
  \<open>ApplyDelta(nil, r)\<close>. For every request \<open>r\<close> whatsoever, the same holds when the
  second call is given \<open>r\<close> as the first call left it (\<open>r1\<close>: the first call assigns the
  default sort order to the lists of \<open>r\<close> in place), and the second call leaves it
  unchanged.
\<close>

theorem ApplyDelta_idempotent:
  "case ApplyDelta extApply None r of (res1, delta1, r1) \<Rightarrow>
     (case ApplyDelta extApply (Some res1) r1 of (res2, delta2, r2) \<Rightarrow>
        Lists res2 = Lists res1
      \<and> map_of (RoomSubscriptions res2) = map_of (RoomSubscriptions res1)
      \<and> r2 = r1)
   \<and> (list_all (\<lambda>l. Sort l \<noteq> Some []) (Lists r) \<longrightarrow>
       (case ApplyDelta extApply (Some res1) r of (res2, delta2, r2) \<Rightarrow>
          Lists res2 = Lists res1
        \<and> map_of (RoomSubscriptions res2) = map_of (RoomSubscriptions res1)))"
proof -
  obtain res1 delta1 r1 where e1: "ApplyDelta extApply None r = (res1, delta1, r1)"
    by (cases "ApplyDelta extApply None r") auto
  have L1: "Lists res1 = map defaultSort (Lists r)" and Lr1: "Lists r1 = map defaultSort (Lists r)"
    using ApplyDelta_nil_Lists [of extApply r] e1 by simp_all
  have r1: "RoomSubscriptions r1 = RoomSubscriptions r" "UnsubscribeRooms r1 = UnsubscribeRooms r"
    using ApplyDelta_next_other(1,2) [of extApply None r] e1 by simp_all
  have U1: "UnsubscribeRooms res1 = []"
    using ApplyDelta_result_UnsubscribeRooms [of extApply None r] e1 by simp
  have R1: "map_of (RoomSubscriptions res1)
              = map_of (RoomSubscriptions r) |` (- set (UnsubscribeRooms r))"
    using ApplyDelta_RoomSubscriptions [of extApply None r] e1
    by (simp add: prevSubscriptions_def prevUnsubscribes_def)
  have subs: "map_of (RoomSubscriptions (fst (ApplyDelta extApply (Some res1) q)))
              = map_of (RoomSubscriptions res1)"
    if "RoomSubscriptions q = RoomSubscriptions r" "UnsubscribeRooms q = UnsubscribeRooms r" for q
    unfolding ApplyDelta_RoomSubscriptions
    by (auto simp: prevSubscriptions_def prevUnsubscribes_def U1 R1 that
        restrict_map_def map_add_def fun_eq_iff split: option.splits)
  have res1: "res1 = res1\<lparr>Lists := Lists res1\<rparr>"
    by simp
  have same: "Lists (fst (ApplyDelta extApply (Some res1) r1)) = Lists res1"
    by (subst res1, rule ApplyDelta_again_Lists)
       (simp add: Lr1 L1 list_all2_same applyListDelta_same)
  have fresh: "Lists (fst (ApplyDelta extApply (Some res1) r)) = Lists res1"
    if "list_all (\<lambda>l. Sort l \<noteq> Some []) (Lists r)"
    by (subst res1, rule ApplyDelta_again_Lists)
       (use that in \<open>simp add: L1 list_all2_map1 list_all2_same list_all_iff applyListDelta_defaulted\<close>)
  have "map (\<lambda>i. snd (applyListDelta (list_at (Lists r1) i) (Lists r1 ! i)))
          [0 ..< length (Lists r1)] = Lists r1"
    by (rule map_upt_nth) (simp add: list_at_def applyListDelta_same)
  then have "Lists (snd (snd (ApplyDelta extApply (Some res1) r1))) = Lists r1"
    unfolding ApplyDelta_next_Lists prevLists_def
    by (simp add: Lr1 L1)
  then have r2: "snd (snd (ApplyDelta extApply (Some res1) r1)) = r1"
    using ApplyDelta_next_other(3) [of extApply "Some res1" r1] by simp
  obtain res2 delta2 r2 where e2: "ApplyDelta extApply (Some res1) r1 = (res2, delta2, r2)"
    by (cases "ApplyDelta extApply (Some res1) r1") auto
  obtain res3 delta3 r3 where e3: "ApplyDelta extApply (Some res1) r = (res3, delta3, r3)"
    by (cases "ApplyDelta extApply (Some res1) r") auto
  show ?thesis
    using same subs [of r1] subs [of r] r1 r2 fresh
    by (simp add: e1 e2 e3)
qed


text \<open>
  The theorem at a request with one list that sets no sort order, and one subscription
  (a fresh copy serves for the second call), and at the request with the explicitly
  empty sort, where the second call is given the request as the first call left it.
\<close>

theorem ApplyDelta_idempotent_witness:
  "Lists (fst (ApplyDelta (\<lambda>a b. b) None (mkRequest [ex_delta_list] [(''!a'', ex_sub)] [])))
     = [ex_delta_list\<lparr>Sort := Some [''by_recency'']\<rparr>]
   \<and> Lists (fst (ApplyDelta (\<lambda>a b. b)
        (Some (fst (ApplyDelta (\<lambda>a b. b) None (mkRequest [ex_delta_list] [(''!a'', ex_sub)] []))))
        (snd (snd (ApplyDelta (\<lambda>a b. b) None (mkRequest [ex_delta_list] [(''!a'', ex_sub)] []))))))
     = [ex_delta_list\<lparr>Sort := Some [''by_recency'']\<rparr>]
   \<and> Lists (fst (ApplyDelta (\<lambda>a b. b)
        (Some (fst (ApplyDelta (\<lambda>a b. b) None (mkRequest [ex_delta_list] [(''!a'', ex_sub)] []))))
        (mkRequest [ex_delta_list] [(''!a'', ex_sub)] [])))
     = [ex_delta_list\<lparr>Sort := Some [''by_recency'']\<rparr>]
   \<and> Lists (fst (ApplyDelta (\<lambda>a b. b)
        (Some (fst (ApplyDelta (\<lambda>a b. b) None (mkRequest [ex_empty_sort_list] [] []))))
        (snd (snd (ApplyDelta (\<lambda>a b. b) None (mkRequest [ex_empty_sort_list] [] []))))))
     = [ex_empty_sort_list\<lparr>Sort := Some [''by_recency'']\<rparr>]"
  using ApplyDelta_idempotent [where extApply = "\<lambda>a b. b"
      and r = "mkRequest [ex_delta_list] [(''!a'', ex_sub)] []"]
    ApplyDelta_idempotent [where extApply = "\<lambda>a b. b"
      and r = "mkRequest [ex_empty_sort_list] [] []"]
    ApplyDelta_nil_Lists(1) [where extApply = "\<lambda>a b. b"
      and r = "mkRequest [ex_delta_list] [(''!a'', ex_sub)] []"]
    ApplyDelta_nil_Lists(1) [where extApply = "\<lambda>a b. b"
      and r = "mkRequest [ex_empty_sort_list] [] []"]
  by (simp add: mkRequest_def ex_delta_list_def ex_empty_sort_list_def defaultSort_def
      slice_len_def SortByRecency_def split: prod.splits)

text \<open>
  The claim as stated, for every request, fails for a request whose list has an
  explicitly empty sort when it is sent twice (a fresh copy for the second call): the
  first call stores the default \<open>[by_recency]\<close>, the second finds a previous list and an
  incoming sort that is not nil, and overwrites the default with the empty sort.
\<close>

theorem ApplyDelta_idempotent_counterexample:
  "Lists (fst (ApplyDelta (\<lambda>a b. b) None (mkRequest [ex_empty_sort_list] [] [])))
     = [ex_empty_sort_list\<lparr>Sort := Some [''by_recency'']\<rparr>]
   \<and> Lists (fst (ApplyDelta (\<lambda>a b. b)
        (Some (fst (ApplyDelta (\<lambda>a b. b) None (mkRequest [ex_empty_sort_list] [] []))))
        (mkRequest [ex_empty_sort_list] [] [])))
     = [ex_empty_sort_list]
   \<and> Lists (fst (ApplyDelta (\<lambda>a b. b)
        (Some (fst (ApplyDelta (\<lambda>a b. b) None (mkRequest [ex_empty_sort_list] [] []))))
        (mkRequest [ex_empty_sort_list] [] [])))
     \<noteq> Lists (fst (ApplyDelta (\<lambda>a b. b) None (mkRequest [ex_empty_sort_list] [] [])))"
  by (simp add: ApplyDelta_def Let_def mkRequest_def ex_empty_sort_list_def applyListDelta_def
      list_at_def prevLists_def slice_len_def SortByRecency_def)

section \<open>ConnState.moveRoom\<close>

lemma initialRooms_one:
  "initialRooms c s m [rid] = [hd (initialRooms c s m [rid])]"
  by (simp add: initialRooms_def Let_def)

lemma initialRooms_one_RoomID:
  "Room_RoomID (hd (initialRooms c s m [rid])) = rid"
  by (simp add: initialRooms_def Let_def)

lemma getInitialRoomData_one:
  "muxedReq s = Some m \<Longrightarrow>
   and_then (getInitialRoomData c s [rid]) first_elem = Inr (hd (initialRooms c s m [rid]))"
proof -
  assume "muxedReq s = Some m"
  then have "getInitialRoomData c s [rid] = Inr [hd (initialRooms c s m [rid])]"
    using initialRooms_one [of c s m rid] by (simp add: getInitialRoomData_def)
  then show ?thesis
    by (simp add: and_then_def first_elem_def)
qed

lemma initialRooms_roomSubscriptions:
  "initialRooms c (s\<lparr>roomSubscriptions := x\<rparr>) m = initialRooms c s m"
  by (simp add: initialRooms_def fun_eq_iff)

text \<open>
  Claim C1. If \<open>fromIndex = toIndex\<close>, moveRoom returns exactly one UPDATE at
  \<open>fromIndex\<close>, whose room is the delta projection of the event when \<open>onlySendRoomID\<close> is
  false and the stub that carries only the room identifier when it is true. Otherwise it
  returns exactly one DELETE followed by one INSERT at \<open>toIndex\<close>; the index of the
  DELETE is \<open>fromIndex\<close> if that lies inside some range and \<open>LowerClamp(fromIndex)\<close>
  otherwise, and the room of the INSERT is the stub when \<open>onlySendRoomID\<close> is true and the
  initial projection of the room otherwise. The initial projection reads the muxed
  request \<open>m\<close>, which onIncomingRequest, the only caller, has set before it calls moveRoom.
\<close>

theorem moveRoom_ops:
  "(fromIndex = toIndex \<longrightarrow>
      moveRoom c s updateEvent fromIndex toIndex ranges onlySendRoomID =
        Inr [ResponseOpSingle ''UPDATE'' (Some fromIndex)
               (Some (if onlySendRoomID then roomStub (roomID updateEvent)
                      else getDeltaRoomData c updateEvent))])
   \<and> (fromIndex \<noteq> toIndex \<and> (onlySendRoomID \<or> muxedReq s = Some m) \<longrightarrow>
        (\<exists>room. moveRoom c s updateEvent fromIndex toIndex ranges onlySendRoomID =
           Inr [ResponseOpSingle ''DELETE''
                  (Some (if \<exists>r \<in> set ranges. fst r \<le> fromIndex \<and> fromIndex \<le> snd r
                         then fromIndex else LowerClamp ranges fromIndex)) None,
                ResponseOpSingle ''INSERT'' (Some toIndex) (Some room)]
         \<and> (if onlySendRoomID then room = roomStub (roomID updateEvent)
             else initialRooms c s m [roomID updateEvent] = [room])))"
proof (intro conjI impI)
  assume "fromIndex = toIndex"
  then show "moveRoom c s updateEvent fromIndex toIndex ranges onlySendRoomID =
        Inr [ResponseOpSingle ''UPDATE'' (Some fromIndex)
               (Some (if onlySendRoomID then roomStub (roomID updateEvent)
                      else getDeltaRoomData c updateEvent))]"
    by (simp add: moveRoom_def)
next
  assume a: "fromIndex \<noteq> toIndex \<and> (onlySendRoomID \<or> muxedReq s = Some m)"
  have i: "(Inside ranges fromIndex = None) = (\<not> (\<exists>r \<in> set ranges. fst r \<le> fromIndex \<and> fromIndex \<le> snd r))"
    by (simp add: Inside_None_iff)
  show "\<exists>room. moveRoom c s updateEvent fromIndex toIndex ranges onlySendRoomID =
           Inr [ResponseOpSingle ''DELETE''
                  (Some (if \<exists>r \<in> set ranges. fst r \<le> fromIndex \<and> fromIndex \<le> snd r
                         then fromIndex else LowerClamp ranges fromIndex)) None,
                ResponseOpSingle ''INSERT'' (Some toIndex) (Some room)]
         \<and> (if onlySendRoomID then room = roomStub (roomID updateEvent)
             else initialRooms c s m [roomID updateEvent] = [room])"
  proof (cases onlySendRoomID)
    case True
    then show ?thesis using a i
      by (auto simp: moveRoom_def and_then_def)
  next
    case False
    with a have m: "muxedReq s = Some m" by auto
    show ?thesis
      using a i False getInitialRoomData_one [OF m, of c "roomID updateEvent"]
        initialRooms_one [of c s m "roomID updateEvent"]
      by (auto simp: moveRoom_def and_then_def)
  qed
qed

text \<open>
  The theorem on the connection \<open>ex_conn\<close> tracking \<open>[0,4]\<close>: an update in place with
  and without data, a bump to the top from inside the window, and one from outside it.
\<close>

theorem moveRoom_ops_witness:
  "moveRoom ex_collab ex_conn ex_event 2 2 [(0, 4)] False =
     Inr [ResponseOpSingle ''UPDATE'' (Some 2)
            (Some ((roomStub ''!r'')\<lparr>Room_NotificationCount := 1, Room_Timeline := [''{}'']\<rparr>))]
   \<and> moveRoom ex_collab ex_conn ex_event 2 2 [(0, 4)] True =
     Inr [ResponseOpSingle ''UPDATE'' (Some 2) (Some (roomStub ''!r''))]
   \<and> moveRoom ex_collab ex_conn ex_event 3 0 [(0, 4)] False =
     Inr [ResponseOpSingle ''DELETE'' (Some 3) None,
          ResponseOpSingle ''INSERT'' (Some 0) (Some (ex_room ''!r''))]
   \<and> moveRoom ex_collab ex_conn ex_event 6 0 [(0, 4)] True =
     Inr [ResponseOpSingle ''DELETE'' (Some (LowerClamp [(0, 4)] 6)) None,
          ResponseOpSingle ''INSERT'' (Some 0) (Some (roomStub ''!r''))]
   \<and> LowerClamp [(0, 4)] 6 = 4"
  using moveRoom_ops [of 2 2 ex_collab ex_conn ex_event "[(0, 4)]" False ex_conn_request]
    moveRoom_ops [of 2 2 ex_collab ex_conn ex_event "[(0, 4)]" True ex_conn_request]
    moveRoom_ops [of 3 0 ex_collab ex_conn ex_event "[(0, 4)]" False ex_conn_request]
    moveRoom_ops [of 6 0 ex_collab ex_conn ex_event "[(0, 4)]" True ex_conn_request]
  by (auto simp: ex_conn_def ex_event_def ex_collab_def ex_conn_request_def ex_room_def
      roomStub_def getDeltaRoomData_def initialRooms_def NewConnState_def zeroUserRoomData_def
      LowerClamp_def ClosestInDirection_def boundaries_def Let_def)

section \<open>ConnState.updateRoomSubscriptions\<close>

lemma subscribeRooms_eq:
  assumes "muxedReq s = Some m"
  shows "subscribeRooms c subs (s, result) =
     Inr (s\<lparr>roomSubscriptions :=
              fold (\<lambda>rid al. case map_of (req_RoomSubscriptions m) rid of
                                None \<Rightarrow> al | Some sub \<Rightarrow> AList.update rid sub al)
                subs (roomSubscriptions s)\<rparr>,
          fold (\<lambda>rid al. case map_of (req_RoomSubscriptions m) rid of
                            None \<Rightarrow> al
                          | Some sub \<Rightarrow> AList.update rid (hd (initialRooms c s m [rid])) al)
            subs result)"
  using assms
proof (induction subs arbitrary: s result)
  case Nil
  then show ?case by simp
next
  case (Cons rid subs)
  show ?case
  proof (cases "map_of (req_RoomSubscriptions m) rid")
    case None
    then show ?thesis
      using Cons.prems Cons.IH [OF Cons.prems, of result] by simp
  next
    case (Some sub)
    define s1 where "s1 = s\<lparr>roomSubscriptions := AList.update rid sub (roomSubscriptions s)\<rparr>"
    have m1: "muxedReq s1 = Some m"
      using Cons.prems by (simp add: s1_def)
    have eq: "initialRooms c s1 m = initialRooms c s m"
      by (simp add: s1_def initialRooms_roomSubscriptions)
    have g: "and_then (getInitialRoomData c s1 [rid]) first_elem
               = Inr (hd (initialRooms c s m [rid]))"
      using getInitialRoomData_one [OF m1, of c rid] by (simp add: eq)
    have "subscribeRooms c (rid # subs) (s, result) =
          subscribeRooms c subs (s1, AList.update rid (hd (initialRooms c s m [rid])) result)"
      using Some Cons.prems g by (simp add: s1_def [symmetric] and_then_def)
    also have "\<dots> = Inr (s1\<lparr>roomSubscriptions :=
              fold (\<lambda>rid al. case map_of (req_RoomSubscriptions m) rid of
                                None \<Rightarrow> al | Some sub \<Rightarrow> AList.update rid sub al)
                subs (roomSubscriptions s1)\<rparr>,
          fold (\<lambda>rid al. case map_of (req_RoomSubscriptions m) rid of
                            None \<Rightarrow> al
                          | Some sub \<Rightarrow> AList.update rid (hd (initialRooms c s m [rid])) al)
            subs (AList.update rid (hd (initialRooms c s m [rid])) result))"
      using Cons.IH [OF m1, of "AList.update rid (hd (initialRooms c s m [rid])) result"]
      unfolding eq by simp
    finally show ?thesis
      using Some by (simp add: s1_def)
  qed
qed

lemma map_of_fold_update_if:
  "map_of (fold (\<lambda>k al. case f k of None \<Rightarrow> al | Some v \<Rightarrow> AList.update k (g k v) al) ks al0) =
     (\<lambda>k. if k \<in> set ks \<and> f k \<noteq> None then map_option (g k) (f k) else map_of al0 k)"
proof (induction ks arbitrary: al0)
  case Nil
  then show ?case by simp
next
  case (Cons k ks)
  show ?case
  proof (cases "f k")
    case None
    then show ?thesis using Cons.IH [of al0] by (auto simp: fun_eq_iff)
  next
    case (Some v)
    then show ?thesis using Cons.IH [of "AList.update k (g k v) al0"]
      by (auto simp: fun_eq_iff update_conv')
  qed
qed

lemma distinct_fold_update_if:
  "distinct (map fst al0) \<Longrightarrow>
   distinct (map fst (fold (\<lambda>k al. case f k of None \<Rightarrow> al | Some v \<Rightarrow> AList.update k (g k v) al) ks al0))"
proof (induction ks arbitrary: al0)
  case Nil
  then show ?case by simp
next
  case (Cons k ks)
  then show ?case
    by (cases "f k") (simp_all add: distinct_update)
qed

lemma map_of_fold_delete:
  "map_of (fold (\<lambda>rid m. AList.delete rid m) ks al) = map_of al |` (- set ks)"
  by (induction ks arbitrary: al) (auto simp: delete_conv' restrict_map_def fun_eq_iff)


lemma updateRoomSubscriptions_eq:
  assumes "muxedReq s = Some m"
  shows "updateRoomSubscriptions c s subs unsubs =
     Inr (s\<lparr>roomSubscriptions :=
              fold (\<lambda>rid al. AList.delete rid al) unsubs
                (fold (\<lambda>rid al. case map_of (req_RoomSubscriptions m) rid of
                                   None \<Rightarrow> al | Some sub \<Rightarrow> AList.update rid sub al)
                   subs (roomSubscriptions s))\<rparr>,
          fold (\<lambda>rid al. case map_of (req_RoomSubscriptions m) rid of
                            None \<Rightarrow> al
                          | Some sub \<Rightarrow> AList.update rid (hd (initialRooms c s m [rid])) al)
            subs [])"
  by (simp add: updateRoomSubscriptions_def subscribeRooms_eq [OF assms] and_then_def
      unsubscribeRooms_def)

text \<open>
  Claim C10. On a connection with a muxed request \<open>m\<close>: a new subscription whose
  identifier has no entry in the room subscriptions of \<open>m\<close> is skipped, it is not added
  to the active subscriptions (its entry there stays as it was) and the returned map has
  no payload for it; an identifier that has an entry is added to the active
  subscriptions by the first loop, with that entry, and the returned map holds exactly
  one payload for it, its initial projection; the second loop then removes every
  unsubscribed identifier from the active subscriptions, and changes no other entry.
  Nothing else of the connection changes.
\<close>

theorem updateRoomSubscriptions_result:
  assumes "muxedReq s = Some m"
  shows "\<exists>subscribed1 subscribed result.
     subscribeRooms c subs (s, []) = Inr (s\<lparr>roomSubscriptions := subscribed1\<rparr>, result)
   \<and> updateRoomSubscriptions c s subs unsubs = Inr (s\<lparr>roomSubscriptions := subscribed\<rparr>, result)
   \<and> distinct (map fst result)
   \<and> (\<forall>rid.
        (rid \<in> set subs \<and> map_of (req_RoomSubscriptions m) rid \<noteq> None \<longrightarrow>
           map_of subscribed1 rid = map_of (req_RoomSubscriptions m) rid
         \<and> (\<exists>room. initialRooms c s m [rid] = [room] \<and> map_of result rid = Some room))
      \<and> (\<not> (rid \<in> set subs \<and> map_of (req_RoomSubscriptions m) rid \<noteq> None) \<longrightarrow>
           map_of subscribed1 rid = map_of (roomSubscriptions s) rid
         \<and> map_of result rid = None)
      \<and> map_of subscribed rid = (if rid \<in> set unsubs then None else map_of subscribed1 rid))"
proof -
  define subscribed1 where "subscribed1 =
     fold (\<lambda>rid al. case map_of (req_RoomSubscriptions m) rid of
                       None \<Rightarrow> al | Some sub \<Rightarrow> AList.update rid sub al)
       subs (roomSubscriptions s)"
  define result where "result =
     fold (\<lambda>rid al. case map_of (req_RoomSubscriptions m) rid of
                       None \<Rightarrow> al
                     | Some sub \<Rightarrow> AList.update rid (hd (initialRooms c s m [rid])) al)
       subs ([] :: (string \<times> Room) list)"
  define subscribed where "subscribed = fold (\<lambda>rid al. AList.delete rid al) unsubs subscribed1"
  have a: "map_of subscribed1 rid =
       (if rid \<in> set subs \<and> map_of (req_RoomSubscriptions m) rid \<noteq> None
        then map_of (req_RoomSubscriptions m) rid else map_of (roomSubscriptions s) rid)" for rid
    unfolding subscribed1_def
    using map_of_fold_update_if [where f = "map_of (req_RoomSubscriptions m)" and g = "\<lambda>k v. v"
        and ks = subs and ?al0.0 = "roomSubscriptions s"]
    by (auto simp: fun_eq_iff option.map_ident)
  have b: "map_of result rid =
       (if rid \<in> set subs \<and> map_of (req_RoomSubscriptions m) rid \<noteq> None
        then Some (hd (initialRooms c s m [rid])) else None)" for rid
    unfolding result_def
    using map_of_fold_update_if [where f = "map_of (req_RoomSubscriptions m)"
        and g = "\<lambda>k v. hd (initialRooms c s m [k])" and ks = subs and ?al0.0 = "[]"]
    by (auto simp: fun_eq_iff)
  have d: "distinct (map fst result)"
    unfolding result_def
    using distinct_fold_update_if [where f = "map_of (req_RoomSubscriptions m)"
        and g = "\<lambda>k v. hd (initialRooms c s m [k])" and ks = subs and ?al0.0 = "[]"]
    by simp
  have e: "map_of subscribed rid = (if rid \<in> set unsubs then None else map_of subscribed1 rid)" for rid
    by (simp add: subscribed_def map_of_fold_delete restrict_map_def)
  have 1: "subscribeRooms c subs (s, []) = Inr (s\<lparr>roomSubscriptions := subscribed1\<rparr>, result)"
    by (simp add: subscribeRooms_eq [OF assms] subscribed1_def result_def)
  have 2: "updateRoomSubscriptions c s subs unsubs = Inr (s\<lparr>roomSubscriptions := subscribed\<rparr>, result)"
    by (simp add: updateRoomSubscriptions_eq [OF assms] subscribed_def subscribed1_def result_def)
  have 3: "\<exists>room. initialRooms c s m [rid] = [room] \<and> map_of result rid = Some room"
    if "rid \<in> set subs \<and> map_of (req_RoomSubscriptions m) rid \<noteq> None" for rid
    using that b [of rid] initialRooms_one [of c s m rid] by auto
  have 4: "map_of subscribed1 rid = map_of (req_RoomSubscriptions m) rid"
    if "rid \<in> set subs \<and> map_of (req_RoomSubscriptions m) rid \<noteq> None" for rid
    using that a [of rid] by auto
  have 5: "map_of subscribed1 rid = map_of (roomSubscriptions s) rid \<and> map_of result rid = None"
    if "\<not> (rid \<in> set subs \<and> map_of (req_RoomSubscriptions m) rid \<noteq> None)" for rid
    using that a [of rid] b [of rid] by auto
  show ?thesis
    using 1 2 3 4 5 d e by blast
qed

text \<open>
  The theorem on a connection subscribed to \<open>!old\<close>: the request has an entry for \<open>!r\<close>
  and none for \<open>!missing\<close>, and \<open>!old\<close> is unsubscribed.
\<close>

theorem updateRoomSubscriptions_result_witness:
  "updateRoomSubscriptions ex_collab (ex_conn\<lparr>roomSubscriptions := [(''!old'', ex_sub)]\<rparr>)
      [''!r'', ''!missing''] [''!old'']
     = Inr (ex_conn\<lparr>roomSubscriptions := [(''!r'', ex_sub)]\<rparr>, [(''!r'', ex_room ''!r'')])"
proof -
  have h: "muxedReq (ex_conn\<lparr>roomSubscriptions := [(''!old'', ex_sub)]\<rparr>) = Some ex_conn_request"
    by (simp add: ex_conn_def)
  show ?thesis
    using updateRoomSubscriptions_result [OF h, of ex_collab "[''!r'', ''!missing'']" "[''!old'']"]
    by (simp add: updateRoomSubscriptions_def unsubscribeRooms_def and_then_def first_elem_def
        getInitialRoomData_def initialRooms_def ex_conn_def ex_conn_request_def ex_collab_def
        ex_room_def NewConnState_def Let_def)
qed

section \<open>ConnState.OnNewEvent\<close>

text \<open>
  Claim C6, as amended. An event whose \<open>latestPos\<close> is not \<open>0\<close> and is less than the
  load position of the connection is dropped: whichever case of the select would run,
  the inbox and the rest of the connection are unchanged and nothing is logged. An
  event whose \<open>latestPos\<close> is \<open>0\<close> is exempt from the test: it is placed on the inbox
  when the send proceeds.
\<close>

theorem OnNewEvent_drops_older:
  "(latestPos eventData \<noteq> 0 \<and> latestPos eventData < loadPosition s \<longrightarrow>
      OnNewEvent s eventData which = (s, []))
   \<and> (latestPos eventData = 0 \<longrightarrow>
      OnNewEvent s eventData SendProceeds = (s\<lparr>updateEvents := updateEvents s @ [eventData]\<rparr>, []))"
  by (simp add: OnNewEvent_def)

text \<open>
  The theorem on the connection \<open>ex_conn\<close>, whose load position is \<open>5\<close>: an event at
  position \<open>3\<close> and an event at position \<open>0\<close>.
\<close>

theorem OnNewEvent_drops_older_witness:
  "OnNewEvent ex_conn (ex_event\<lparr>latestPos := 3\<rparr>) SendProceeds = (ex_conn, [])
   \<and> OnNewEvent ex_conn (ex_event\<lparr>latestPos := 3\<rparr>) TimerFires = (ex_conn, [])
   \<and> updateEvents (fst (OnNewEvent ex_conn (ex_event\<lparr>latestPos := 0\<rparr>) SendProceeds))
       = [ex_event\<lparr>latestPos := 0\<rparr>]"
  using OnNewEvent_drops_older [of "ex_event\<lparr>latestPos := 3\<rparr>" ex_conn SendProceeds]
    OnNewEvent_drops_older [of "ex_event\<lparr>latestPos := 3\<rparr>" ex_conn TimerFires]
    OnNewEvent_drops_older [of "ex_event\<lparr>latestPos := 0\<rparr>" ex_conn SendProceeds]
  by (simp add: ex_conn_def ex_event_def NewConnState_def)

text \<open>
  The claim as stated (\<open>latestPos \<le> loadPosition\<close>) fails on the same connection for an
  event at position \<open>0\<close>, which the test exempts (OnUnreadCountsChanged sends such
  events), and for an event at the load position itself, since the test is \<open><\<close>: both
  are placed on the inbox.
\<close>

theorem OnNewEvent_drops_older_counterexample:
  "latestPos (ex_event\<lparr>latestPos := 0\<rparr>) \<le> loadPosition ex_conn
   \<and> updateEvents (fst (OnNewEvent ex_conn (ex_event\<lparr>latestPos := 0\<rparr>) SendProceeds))
       = [ex_event\<lparr>latestPos := 0\<rparr>]
   \<and> latestPos (ex_event\<lparr>latestPos := 5\<rparr>) \<le> loadPosition ex_conn
   \<and> updateEvents (fst (OnNewEvent ex_conn (ex_event\<lparr>latestPos := 5\<rparr>) SendProceeds))
       = [ex_event\<lparr>latestPos := 5\<rparr>]"
  by (simp add: OnNewEvent_def ex_conn_def ex_event_def NewConnState_def)

text \<open>
  The events that OnUnreadCountsChanged sends carry no position, so they are never taken
  for older events, whatever the load position is.
\<close>

lemma OnUnreadCountsChanged_enqueues:
  "OnUnreadCountsChanged c s user rid urd True SendProceeds =
     (s\<lparr>updateEvents := updateEvents s @
           [\<lparr>event = None, roomID = rid, latestPos = 0,
             timestamp = LastMessageTimestamp (LoadRoom c rid), userRoomData = Some urd\<rparr>]\<rparr>,
      [])"
  by (simp add: OnUnreadCountsChanged_def OnNewEvent_def Let_def)

text \<open>
  Claim C7 (the code falls short of it). The inbox of the connection holds
  MaxPendingEventUpdates events and the timer of the select fires: OnNewEvent logs a
  warning and returns. The event is not on the inbox, the connection is unchanged, and
  the user cache is not told to unsubscribe it, which is all that Destroy does.
\<close>

theorem OnNewEvent_buffer_exceeded:
  "length (updateEvents (ex_conn\<lparr>updateEvents := replicate 200 ex_event\<rparr>)) = MaxPendingEventUpdates
   \<and> OnNewEvent (ex_conn\<lparr>updateEvents := replicate 200 ex_event\<rparr>) ex_event TimerFires
       = (ex_conn\<lparr>updateEvents := replicate 200 ex_event\<rparr>,
          [LogWarn ''cannot send event to connection, buffer exceeded''])
   \<and> Destroy (ex_conn\<lparr>updateEvents := replicate 200 ex_event\<rparr>) = [Unsubscribe 1]"
  by (simp add: OnNewEvent_def Destroy_def MaxPendingEventUpdates_def ex_conn_def ex_event_def
      NewConnState_def)

section \<open>ConnState.HandleIncomingRequest and ConnState.onIncomingRequest\<close>

text \<open>
  Claim C8 (the code falls short of it). The first request on a connection whose global
  cache fails to load the joined rooms: load returns the error and leaves the connection
  as it was, but HandleIncomingRequest does not read the error. It goes on to
  onIncomingRequest, which stores the request and answers with a response and a nil
  error, whatever the blocking loop would do (it is not entered).
\<close>

theorem HandleIncomingRequest_load_fails:
  "loadPosition (NewConnState ''@u'' 1) = 0
   \<and> load ex_collab (NewConnState ''@u'' 1) ex_conn_request
       = (Some ''upstream unavailable'', NewConnState ''@u'' 1)
   \<and> HandleIncomingRequest ex_collab blockloop (NewConnState ''@u'' 1) ex_conn_request
       = Inr ((NewConnState ''@u'' 1)\<lparr>muxedReq := Some ex_conn_request,
                                      roomSubscriptions := [(''!r'', ex_sub)]\<rparr>,
              \<lparr>Resp_RoomSubscriptions = [(''!r'', ex_room ''!r'')], Count = 0,
               Ops = [ResponseOpRange ''SYNC'' [0, 4] []]\<rparr>,
              None)"
  by (simp add: HandleIncomingRequest_def onIncomingRequest_def load_def
      updateRoomSubscriptions_def unsubscribeRooms_def and_then_def first_elem_def
      getInitialRoomData_def initialRooms_def syncOp_def invalidateOps_def SliceInto_def
      ConnState_sort_def slice_elems_def
      ex_conn_request_def ex_collab_def ex_room_def NewConnState_def Let_def)






end
